theory Spec2Isabelle
  imports Main "HOL-Library.Log_Nat" "HOL-Library.AList"
begin

section \<open>Python strings\<close>

text \<open>
  A Python \<open>str\<close> is modelled as a \<open>string\<close>, each \<open>char\<close> standing for the code point
  of the same number (U+0000 to U+00FF). Within this range the decimal digits of
  \<open>\d\<close> and \<open>int()\<close> are exactly \<open>0\<close> to \<open>9\<close>, and the white space of \<open>str.strip()\<close>
  and \<open>\s\<close> is the twelve characters of \<open>whitespace_chars\<close>.
\<close>

definition digit_chars :: string where
  "digit_chars = ''0123456789''"

definition is_digit :: "char \<Rightarrow> bool" where
  "is_digit c = (c \<in> set digit_chars)"

definition whitespace_chars :: string where
  "whitespace_chars =
     [CHR 0x09, CHR 0x0A, CHR 0x0B, CHR 0x0C, CHR 0x0D, CHR 0x1C, CHR 0x1D, CHR 0x1E,
      CHR 0x1F, CHR 0x20, CHR 0x85, CHR 0xA0]"

definition is_space :: "char \<Rightarrow> bool" where
  "is_space c = (c \<in> set whitespace_chars)"

text \<open>\<open>s.strip()\<close>: leading and trailing white space removed.\<close>

definition strip :: "string \<Rightarrow> string" where
  "strip s = rev (dropWhile is_space (rev (dropWhile is_space s)))"

text \<open>\<open>s.lower()\<close>: the upper-case letters of the range and their lower-case forms.\<close>

definition upper_chars :: string where
  "upper_chars = ''ABCDEFGHIJKLMNOPQRSTUVWXYZ'' @
     [CHR 0xC0, CHR 0xC1, CHR 0xC2, CHR 0xC3, CHR 0xC4, CHR 0xC5, CHR 0xC6, CHR 0xC7,
      CHR 0xC8, CHR 0xC9, CHR 0xCA, CHR 0xCB, CHR 0xCC, CHR 0xCD, CHR 0xCE, CHR 0xCF,
      CHR 0xD0, CHR 0xD1, CHR 0xD2, CHR 0xD3, CHR 0xD4, CHR 0xD5, CHR 0xD6,
      CHR 0xD8, CHR 0xD9, CHR 0xDA, CHR 0xDB, CHR 0xDC, CHR 0xDD, CHR 0xDE]"

definition lower_chars :: string where
  "lower_chars = ''abcdefghijklmnopqrstuvwxyz'' @
     [CHR 0xE0, CHR 0xE1, CHR 0xE2, CHR 0xE3, CHR 0xE4, CHR 0xE5, CHR 0xE6, CHR 0xE7,
      CHR 0xE8, CHR 0xE9, CHR 0xEA, CHR 0xEB, CHR 0xEC, CHR 0xED, CHR 0xEE, CHR 0xEF,
      CHR 0xF0, CHR 0xF1, CHR 0xF2, CHR 0xF3, CHR 0xF4, CHR 0xF5, CHR 0xF6,
      CHR 0xF8, CHR 0xF9, CHR 0xFA, CHR 0xFB, CHR 0xFC, CHR 0xFD, CHR 0xFE]"

definition lower_char :: "char \<Rightarrow> char" where
  "lower_char c = (case map_of (zip upper_chars lower_chars) c of Some d \<Rightarrow> d | None \<Rightarrow> c)"

definition lower :: "string \<Rightarrow> string" where
  "lower s = map lower_char s"

text \<open>\<open>s.startswith(p)\<close> and the substring test \<open>p in s\<close>.\<close>

fun startswith :: "string \<Rightarrow> string \<Rightarrow> bool" where
  "startswith s [] = True"
| "startswith [] (p # ps) = False"
| "startswith (c # cs) (p # ps) = (c = p \<and> startswith cs ps)"

fun contains :: "string \<Rightarrow> string \<Rightarrow> bool" where
  "contains p [] = (p = [])"
| "contains p (c # cs) = (startswith (c # cs) p \<or> contains p cs)"

section \<open>The pollutant normalizer\<close>

text \<open>\<open>normalize_pollutant_name\<close>: the chain of \<open>if\<close>/\<open>elif\<close> on the lowered name.\<close>

definition normalize_pollutant_name :: "string \<Rightarrow> string" where
  "normalize_pollutant_name name0 =
     (let name = lower name0 in
      if contains ''pm2.5'' name then ''pm25''
      else if contains ''pm10'' name then ''pm10''
      else if contains ''co'' name then ''co''
      else if contains ''so2'' name then ''so2''
      else if contains ''no2'' name then ''no2''
      else if contains ''o3'' name then ''o3''
      else strip name)"

text \<open>
  The normalizer as the specification words it: an ordered list of rules (substring,
  key), the first rule whose substring occurs in the label wins.
\<close>

definition pollutant_rules :: "(string \<times> string) list" where
  "pollutant_rules =
     [(''pm2.5'', ''pm25''), (''pm10'', ''pm10''), (''co'', ''co''),
      (''so2'', ''so2''), (''no2'', ''no2''), (''o3'', ''o3'')]"

definition occurs_in :: "string \<Rightarrow> string \<Rightarrow> bool" where
  "occurs_in p s = (\<exists>u v. s = u @ p @ v)"

fun first_match :: "(string \<times> string) list \<Rightarrow> string \<Rightarrow> string option" where
  "first_match [] s = None"
| "first_match ((p, k) # rs) s = (if occurs_in p s then Some k else first_match rs s)"

section \<open>Python values: integers, exceptions\<close>

text \<open>
  \<open>int(s)\<close> in base ten: white space around, an optional sign, then decimal digits in
  which single underscores may separate digits. Anything else raises \<open>ValueError\<close>.
  Integers are unbounded.
\<close>

datatype exn = ValueError | TypeError | AttributeError | IndexError | PlaywrightError

type_synonym 'a result = "exn + 'a"

definition and_then :: "'a result \<Rightarrow> ('a \<Rightarrow> 'b result) \<Rightarrow> 'b result" where
  "and_then r f = (case r of Inl e \<Rightarrow> Inl e | Inr x \<Rightarrow> f x)"

definition digit_value :: "char \<Rightarrow> nat" where
  "digit_value c = (case map_of (zip digit_chars [0 ..< 10]) c of Some d \<Rightarrow> d | None \<Rightarrow> 0)"

definition digits_value :: "string \<Rightarrow> nat" where
  "digits_value s = foldl (\<lambda>a c. 10 * a + digit_value c) 0 s"

fun int_body_ok :: "string \<Rightarrow> bool" where
  "int_body_ok [] = False"
| "int_body_ok [c] = is_digit c"
| "int_body_ok (c # d # cs) =
     (is_digit c \<and> (if d = CHR ''_'' then int_body_ok cs else int_body_ok (d # cs)))"

definition py_int :: "string \<Rightarrow> int result" where
  "py_int s =
     (let t = strip s;
          neg = (case t of c # _ \<Rightarrow> c = CHR ''-'' | [] \<Rightarrow> False);
          body = (case t of c # cs \<Rightarrow> if c = CHR ''-'' \<or> c = CHR ''+'' then cs else t
                  | [] \<Rightarrow> [])
      in if int_body_ok body
         then Inr ((if neg then - 1 else 1) * int (digits_value (filter is_digit body)))
         else Inl ValueError)"

text \<open>\<open>str(n)\<close> for an integer: decimal, no leading zeros, a minus sign when negative.\<close>

function str_nat :: "nat \<Rightarrow> string" where
  "str_nat n =
     (if n < 10 then [digit_chars ! n] else str_nat (n div 10) @ [digit_chars ! (n mod 10)])"
  by pat_completeness auto
termination
  by (relation "measure id") auto

declare str_nat.simps [simp del]

definition py_str :: "int \<Rightarrow> string" where
  "py_str i = (if i < 0 then CHR ''-'' # str_nat (nat (- i)) else str_nat (nat i))"

text \<open>
  \<open>s.isdigit()\<close>: non-empty and every character a digit; in this range the digits are
  \<open>0\<close> to \<open>9\<close> and the superscripts U+00B2, U+00B3, U+00B9.
\<close>

definition isdigit :: "string \<Rightarrow> bool" where
  "isdigit s = (s \<noteq> [] \<and> list_all (\<lambda>c. is_digit c \<or> c \<in> set [CHR 0xB2, CHR 0xB3, CHR 0xB9]) s)"

section \<open>The page: elements and their queries\<close>

text \<open>
  The browser page is a snapshot of what each query answers. An element handle gives
  its text (\<open>text_content()\<close>, which may be \<open>None\<close>), its attributes
  (\<open>get_attribute\<close>), and the answers of \<open>query_selector\<close> and \<open>query_selector_all\<close> for
  each selector; every call may raise instead. An absent element is \<open>None\<close>, which is
  the only falsy handle.
\<close>

datatype element = Element
  (text_content: "string option result")
  (get_attribute: "string \<Rightarrow> string option result")
  (query_selector: "string \<Rightarrow> element option result")
  (query_selector_all: "string \<Rightarrow> element list result")

text \<open>\<open>t.strip()\<close> on a text that may be \<open>None\<close>: \<open>AttributeError\<close> then.\<close>

definition strip_text :: "string option \<Rightarrow> string result" where
  "strip_text t = (case t of None \<Rightarrow> Inl AttributeError | Some s \<Rightarrow> Inr (strip s))"

text \<open>\<open>el.text_content().strip()\<close>.\<close>

definition stripped_text :: "element \<Rightarrow> string result" where
  "stripped_text el = and_then (text_content el) strip_text"

text \<open>
  \<open>except (ValueError, TypeError, AttributeError): pass\<close> followed by \<open>return None\<close>:
  the three exceptions become \<open>None\<close>, any other goes on to the caller.
\<close>

definition except_validation :: "'a option result \<Rightarrow> 'a option result" where
  "except_validation r =
     (case r of
        Inl e \<Rightarrow> if e = ValueError \<or> e = TypeError \<or> e = AttributeError then Inr None else Inl e
      | Inr v \<Rightarrow> Inr v)"

section \<open>Field validators\<close>

text \<open>\<open>re.sub(r'\D', '', s)\<close>: the digits of \<open>s\<close>.\<close>

definition sub_non_digits :: "string \<Rightarrow> string" where
  "sub_non_digits s = filter is_digit s"

definition validate_aqi :: "element option \<Rightarrow> string option result" where
  "validate_aqi aqi_element =
     except_validation
       (case aqi_element of
          None \<Rightarrow> Inr None
        | Some el \<Rightarrow>
            and_then (get_attribute el ''title'') (\<lambda>title.
            and_then (case title of
                        Some (c # cs) \<Rightarrow> Inr (c # cs)
                      | _ \<Rightarrow> stripped_text el) (\<lambda>aqi_value0.
            let aqi_value = sub_non_digits aqi_value0 in
            if isdigit aqi_value
            then and_then (py_int aqi_value) (\<lambda>aqi_int.
                   if 0 \<le> aqi_int \<and> aqi_int \<le> 500 then Inr (Some (py_str aqi_int))
                   else Inr None)
            else Inr None)))"

text \<open>An element with the given text, no attribute and no descendant.\<close>

definition text_element :: "string \<Rightarrow> element" where
  "text_element t = Element (Inr (Some t)) (\<lambda>_. Inr None) (\<lambda>_. Inr None) (\<lambda>_. Inr [])"

text \<open>The same with a \<open>title\<close> attribute.\<close>

definition titled_element :: "string \<Rightarrow> string \<Rightarrow> element" where
  "titled_element title t =
     Element (Inr (Some t)) (\<lambda>a. if a = ''title'' then Inr (Some title) else Inr None)
       (\<lambda>_. Inr None) (\<lambda>_. Inr [])"

text \<open>
  The acceptance rule of the AQI validator in the words of the specification: strip
  the non-digit characters; accept when digits remain and their value is in [0,500];
  the result is that value in decimal.
\<close>

definition aqi_of_raw :: "string \<Rightarrow> string option" where
  "aqi_of_raw raw =
     (let d = filter is_digit raw in
      if d \<noteq> [] \<and> digits_value d \<le> 500 then Some (str_nat (digits_value d)) else None)"

text \<open>The raw AQI text of an element: a non-empty title, else the visible text.\<close>

definition raw_aqi_text :: "string option \<Rightarrow> string \<Rightarrow> string" where
  "raw_aqi_text title t = (case title of Some (c # cs) \<Rightarrow> c # cs | _ \<Rightarrow> t)"

section \<open>Python floats\<close>

text \<open>
  A Python \<open>float\<close> is an IEEE 754 double: a sign and a magnitude that is an exact
  rational, or an infinity. Every operation computes the exact result and rounds it to
  the nearest double, ties to the even significand (53 bits, exponents from -1022 to
  1023, subnormals below), overflowing to infinity. No operation of the program
  yields a NaN.
\<close>

datatype pyfloat = Finite bool rat | Infinity bool

definition pow2 :: "int \<Rightarrow> rat" where
  "pow2 e = (if 0 \<le> e then of_int (2 ^ nat e) else 1 / of_int (2 ^ nat (- e)))"

text \<open>For \<open>r > 0\<close>, the exponent \<open>e\<close> with \<open>2 ^ e \<le> r < 2 ^ (e + 1)\<close>.\<close>

definition floor_log2 :: "rat \<Rightarrow> int" where
  "floor_log2 r = (if 1 \<le> r then bitlen \<lfloor>r\<rfloor> - 1 else - bitlen (\<lceil>1 / r\<rceil> - 1))"

definition round_half_even :: "rat \<Rightarrow> int" where
  "round_half_even x =
     (let f = \<lfloor>x\<rfloor>; d = x - of_int f in
      if d < 1 / 2 then f else if 1 / 2 < d then f + 1 else if even f then f else f + 1)"

text \<open>The double nearest to the magnitude \<open>r \<ge> 0\<close>, with the sign \<open>s\<close>.\<close>

definition round_double :: "bool \<Rightarrow> rat \<Rightarrow> pyfloat" where
  "round_double s r =
     (if r = 0 then Finite s 0
      else let e = max (floor_log2 r) (- 1022);
               ulp = pow2 (e - 52);
               v = of_int (round_half_even (r / ulp)) * ulp
           in if pow2 1024 \<le> v then Infinity s else Finite s v)"

definition signed :: "bool \<Rightarrow> rat \<Rightarrow> rat" where
  "signed s m = (if s then - m else m)"

text \<open>Comparisons of a float with an exact constant: \<open>x > c\<close>, \<open>x <= c\<close>, \<open>c <= x\<close>.\<close>

definition float_gt :: "pyfloat \<Rightarrow> rat \<Rightarrow> bool" where
  "float_gt x c = (case x of Finite s m \<Rightarrow> c < signed s m | Infinity s \<Rightarrow> \<not> s)"

definition float_le :: "pyfloat \<Rightarrow> rat \<Rightarrow> bool" where
  "float_le x c = (case x of Finite s m \<Rightarrow> signed s m \<le> c | Infinity s \<Rightarrow> s)"

definition float_ge :: "pyfloat \<Rightarrow> rat \<Rightarrow> bool" where
  "float_ge x c = (case x of Finite s m \<Rightarrow> c \<le> signed s m | Infinity s \<Rightarrow> \<not> s)"

text \<open>
  \<open>x - c\<close>, \<open>x * c\<close> and \<open>x / c\<close> for a positive finite constant \<open>c\<close> that is itself
  a double (the program's 32, 5, 9 and 1.60934). An exact zero difference is \<open>+0.0\<close>;
  a product or quotient keeps the sign of \<open>x\<close>.
\<close>

definition float_sub :: "pyfloat \<Rightarrow> rat \<Rightarrow> pyfloat" where
  "float_sub x c =
     (case x of
        Finite s m \<Rightarrow>
          (let v = signed s m - c in
           if v = 0 then Finite False 0 else round_double (v < 0) \<bar>v\<bar>)
      | Infinity s \<Rightarrow> Infinity s)"

definition float_mul :: "pyfloat \<Rightarrow> rat \<Rightarrow> pyfloat" where
  "float_mul x c =
     (case x of Finite s m \<Rightarrow> round_double s (m * c) | Infinity s \<Rightarrow> Infinity s)"

definition float_div :: "pyfloat \<Rightarrow> rat \<Rightarrow> pyfloat" where
  "float_div x c =
     (case x of Finite s m \<Rightarrow> round_double s (m / c) | Infinity s \<Rightarrow> Infinity s)"

text \<open>
  \<open>float(s)\<close> for a string of digits, dots and minus signs (what the program's
  \<open>re.sub\<close> and \<open>re.match\<close> leave): an optional minus sign, then digits with an
  optional dot and more digits, or a dot and digits; the decimal value, rounded to the
  nearest double. Anything else raises \<open>ValueError\<close>.
\<close>

definition decimal_value :: "string \<Rightarrow> string \<Rightarrow> rat" where
  "decimal_value ip fp =
     of_nat (digits_value ip) + of_nat (digits_value fp) / 10 ^ length fp"

definition py_float :: "string \<Rightarrow> pyfloat result" where
  "py_float s =
     (let neg = (case s of c # _ \<Rightarrow> c = CHR ''-'' | [] \<Rightarrow> False);
          body = (if neg then tl s else s);
          ip = takeWhile is_digit body;
          rest = dropWhile is_digit body
      in case rest of
           [] \<Rightarrow> if ip = [] then Inl ValueError else Inr (round_double neg (decimal_value ip []))
         | c # fp \<Rightarrow>
             if c = CHR ''.'' \<and> list_all is_digit fp \<and> (ip \<noteq> [] \<or> fp \<noteq> [])
             then Inr (round_double neg (decimal_value ip fp))
             else Inl ValueError)"

text \<open>
  The format \<open>.1f\<close>: the exact value rounded to one decimal, ties to even, with the
  sign of the float (also before a zero); an infinity prints as \<open>inf\<close>.
\<close>

definition format_1f :: "pyfloat \<Rightarrow> string" where
  "format_1f x =
     (case x of
        Finite s m \<Rightarrow>
          (let n = nat (round_half_even (m * 10)) in
           (if s then ''-'' else '''') @ str_nat (n div 10) @ ''.'' @ str_nat (n mod 10))
      | Infinity s \<Rightarrow> (if s then ''-inf'' else ''inf''))"

text \<open>The literal \<open>1.60934\<close>: the magnitude of the double nearest to it.\<close>

definition kmh_per_mile :: rat where
  "kmh_per_mile = (case round_double False (160934 / 100000) of Finite _ m \<Rightarrow> m | Infinity _ \<Rightarrow> 0)"

section \<open>The temperature validator\<close>

text \<open>\<open>re.sub(r'[^\d.-]', '', temp)\<close>.\<close>

definition sub_non_numeric :: "string \<Rightarrow> string" where
  "sub_non_numeric s = filter (\<lambda>c. is_digit c \<or> c = CHR ''.'' \<or> c = CHR ''-'') s"

text \<open>\<open>except (ValueError, TypeError): pass\<close> followed by \<open>return None\<close>.\<close>

definition except_value_type :: "'a option result \<Rightarrow> 'a option result" where
  "except_value_type r =
     (case r of
        Inl e \<Rightarrow> if e = ValueError \<or> e = TypeError then Inr None else Inl e
      | Inr v \<Rightarrow> Inr v)"

text \<open>\<open>(temp_value - 32) * 5 / 9\<close>.\<close>

definition fahrenheit_to_celsius :: "pyfloat \<Rightarrow> pyfloat" where
  "fahrenheit_to_celsius v = float_div (float_mul (float_sub v 32) 5) 9"

definition degrees_celsius :: string where
  "degrees_celsius = [CHR 0xB0, CHR ''C'']"

definition validate_temperature :: "string option \<Rightarrow> string option result" where
  "validate_temperature temp =
     except_value_type
       (case temp of
          None \<Rightarrow> Inr None
        | Some [] \<Rightarrow> Inr None
        | Some t \<Rightarrow>
            and_then (py_float (sub_non_numeric t)) (\<lambda>temp_value0.
            let temp_value =
                  (if float_gt temp_value0 50 then fahrenheit_to_celsius temp_value0
                   else temp_value0)
            in if float_ge temp_value (- 50) \<and> float_le temp_value 50
               then Inr (Some (format_1f temp_value @ degrees_celsius))
               else Inr None))"

section \<open>The other field validators\<close>

text \<open>
  \<open>validate_weather_condition\<close> is called with a string, with \<open>None\<close>, and once with
  the page handle itself, which is truthy but not a \<open>str\<close>.
\<close>

datatype condition_arg = PageHandle | StrOrNone "string option"

definition validate_weather_condition :: "condition_arg \<Rightarrow> string option" where
  "validate_weather_condition condition =
     (case condition of
        PageHandle \<Rightarrow> None
      | StrOrNone None \<Rightarrow> None
      | StrOrNone (Some []) \<Rightarrow> None
      | StrOrNone (Some (c # cs)) \<Rightarrow> Some (strip (c # cs)))"

text \<open>
  The regular expressions, matched from the start of the string. \<open>$\<close> matches at the
  end of the string and before a newline that ends it.
\<close>

definition at_end :: "string \<Rightarrow> bool" where
  "at_end rest = (rest = [] \<or> rest = [CHR 0x0A])"

text \<open>
  \<open>^\d+(\.\d+)?\<close>: the longest run of digits, then a dot and the longest run of digits
  after it when that run is not empty. The matched text and what follows it.
\<close>

definition match_number :: "string \<Rightarrow> (string \<times> string) option" where
  "match_number s =
     (let ip = takeWhile is_digit s; r = dropWhile is_digit s in
      if ip = [] then None
      else case r of
             c # r' \<Rightarrow>
               if c = CHR ''.'' \<and> takeWhile is_digit r' \<noteq> []
               then Some (ip @ c # takeWhile is_digit r', dropWhile is_digit r')
               else Some (ip, r)
           | [] \<Rightarrow> Some (ip, r))"

text \<open>\<open>^\d+(\.\d+)?\s*(km/h|mph)$\<close>.\<close>

definition wind_speed_matches :: "string \<Rightarrow> bool" where
  "wind_speed_matches s =
     (case match_number s of
        None \<Rightarrow> False
      | Some (num, r) \<Rightarrow>
          (let u = dropWhile is_space r in
           (startswith u ''km/h'' \<and> at_end (drop 4 u)) \<or>
           (startswith u ''mph'' \<and> at_end (drop 3 u))))"

definition validate_wind_speed :: "element option \<Rightarrow> string option result" where
  "validate_wind_speed wind_element =
     except_validation
       (case wind_element of
          None \<Rightarrow> Inr None
        | Some el \<Rightarrow>
            and_then (query_selector_all el ''span'') (\<lambda>child_spans.
            and_then
              (case child_spans of
                 [] \<Rightarrow> stripped_text el
               | sp0 # more \<Rightarrow>
                   and_then (stripped_text sp0) (\<lambda>wind_value.
                   and_then (case more of
                               sp1 # _ \<Rightarrow> stripped_text sp1
                             | [] \<Rightarrow> Inr ''km/h'') (\<lambda>wind_unit.
                   Inr (wind_value @ '' '' @ wind_unit)))) (\<lambda>wind_speed.
            if wind_speed_matches wind_speed
            then if contains ''mph'' wind_speed
                 then and_then
                        (py_float (case match_number wind_speed of
                                     Some (num, _) \<Rightarrow> num
                                   | None \<Rightarrow> [])) (\<lambda>v.
                      Inr (Some (format_1f (float_mul v kmh_per_mile) @ '' km/h'')))
                 else Inr (Some wind_speed)
            else Inr None)))"

text \<open>\<open>^\d{1,3}%$\<close>.\<close>

definition humidity_matches :: "string \<Rightarrow> bool" where
  "humidity_matches s =
     (let ds = takeWhile is_digit s; r = dropWhile is_digit s in
      1 \<le> length ds \<and> length ds \<le> 3 \<and> startswith r ''%'' \<and> at_end (drop 1 r))"

definition validate_humidity :: "element option \<Rightarrow> string option result" where
  "validate_humidity humidity_element =
     except_validation
       (case humidity_element of
          None \<Rightarrow> Inr None
        | Some el \<Rightarrow>
            and_then (query_selector_all el ''span'') (\<lambda>child_spans.
            and_then
              (case child_spans of
                 [] \<Rightarrow> stripped_text el
               | sp0 # _ \<Rightarrow> and_then (stripped_text sp0) (\<lambda>t. Inr (t @ ''%''))) (\<lambda>humidity_text.
            if humidity_matches humidity_text then Inr (Some humidity_text) else Inr None)))"

text \<open>\<open>^\d{1,2}$\<close>.\<close>

definition uv_matches :: "string \<Rightarrow> bool" where
  "uv_matches s =
     (let ds = takeWhile is_digit s; r = dropWhile is_digit s in
      1 \<le> length ds \<and> length ds \<le> 2 \<and> at_end r)"

definition validate_uv_index :: "element option \<Rightarrow> string option result" where
  "validate_uv_index uv_element =
     except_validation
       (case uv_element of
          None \<Rightarrow> Inr None
        | Some el \<Rightarrow>
            and_then (query_selector_all el ''span'') (\<lambda>child_spans.
            and_then
              (case child_spans of
                 [] \<Rightarrow> stripped_text el
               | sp0 # _ \<Rightarrow> stripped_text sp0) (\<lambda>uv_text.
            if uv_matches uv_text
            then and_then (py_int uv_text) (\<lambda>uv_value.
                   if 0 \<le> uv_value \<and> uv_value \<le> 11 then Inr (Some (py_str uv_value))
                   else Inr None)
            else Inr None)))"

section \<open>Dictionaries\<close>

text \<open>
  A Python \<open>dict\<close> from field names to optional strings is an association list in
  insertion order; \<open>d[k] = v\<close> is \<open>AList.update\<close>, which replaces the value of a key
  in place and appends a new key at the end.
\<close>

type_synonym dict = "(string \<times> string option) list"

definition keys :: "dict \<Rightarrow> string list" where
  "keys d = map fst d"

text \<open>\<open>d.get(k)\<close>: \<open>None\<close> for a missing key.\<close>

definition dict_get :: "dict \<Rightarrow> string \<Rightarrow> string option" where
  "dict_get d k = (case map_of d k of Some v \<Rightarrow> v | None \<Rightarrow> None)"

text \<open>\<open>{**d, **e}\<close>: the items of \<open>e\<close> stored into \<open>d\<close> one after the other.\<close>

definition dict_merge :: "dict \<Rightarrow> dict \<Rightarrow> dict" where
  "dict_merge d e = foldl (\<lambda>acc (k, v). AList.update k v acc) d e"

text \<open>Truthiness of an optional string: \<open>None\<close> and the empty string are falsy.\<close>

definition truthy :: "string option \<Rightarrow> bool" where
  "truthy v = (case v of Some (c # cs) \<Rightarrow> True | _ \<Rightarrow> False)"

section \<open>The page\<close>

text \<open>
  The page handle after navigation: the outcome of \<open>goto\<close> and of
  \<open>wait_for_load_state\<close>, and the answers of the queries on the loaded document.
  \<open>set_default_timeout\<close> only sets the bound after which a call raises.
\<close>

record page =
  goto :: "string \<Rightarrow> unit result"
  wait_for_load_state :: "string \<Rightarrow> unit result"
  page_query_selector :: "string \<Rightarrow> element option result"
  page_query_selector_all :: "string \<Rightarrow> element list result"

text \<open>\<open>el.text_content().strip() if el else None\<close>.\<close>

definition stripped_text_if :: "element option \<Rightarrow> string option result" where
  "stripped_text_if el =
     (case el of None \<Rightarrow> Inr None | Some e \<Rightarrow> and_then (stripped_text e) (\<lambda>t. Inr (Some t)))"

text \<open>\<open>el.text_content() if el else ""\<close>.\<close>

definition text_content_or_empty :: "element option \<Rightarrow> string option result" where
  "text_content_or_empty el = (case el of None \<Rightarrow> Inr (Some []) | Some e \<Rightarrow> text_content e)"

section \<open>The pollutant extractor\<close>

definition canonical_pollutants :: "string list" where
  "canonical_pollutants = [''pm25'', ''pm10'', ''co'', ''so2'', ''no2'', ''o3'']"

text \<open>\<open>re.sub(r'[^\d.]', '', value_text)\<close>.\<close>

definition sub_non_decimal :: "string \<Rightarrow> string" where
  "sub_non_decimal s = filter (\<lambda>c. is_digit c \<or> c = CHR ''.'') s"

text \<open>The body of the inner \<open>try\<close>: one pollutant block, storing into \<open>pollutant_data\<close>.\<close>

definition pollutant_block :: "element \<Rightarrow> dict \<Rightarrow> dict result" where
  "pollutant_block el pollutant_data =
     and_then (query_selector el ''.sensor-name'') (\<lambda>name_element.
     and_then (stripped_text_if name_element) (\<lambda>name_text.
     and_then (query_selector el ''span.font-bold'') (\<lambda>bold_element.
     and_then (case bold_element of
                 None \<Rightarrow> query_selector el ''span''
               | Some b \<Rightarrow> Inr (Some b)) (\<lambda>value_element.
     and_then (stripped_text_if value_element) (\<lambda>value_text.
     and_then (query_selector el ''.sensor-unit'') (\<lambda>unit_element.
     and_then (stripped_text_if unit_element) (\<lambda>unit_text.
     case (name_text, value_text) of
       (Some (n # ns), Some (v # vs)) \<Rightarrow>
         (let pollutant_key = normalize_pollutant_name (n # ns);
              pollutant_value = sub_non_decimal (v # vs)
          in if pollutant_value \<noteq> []
             then Inr (AList.update pollutant_key
                         (Some (case unit_text of
                                  Some (u # us) \<Rightarrow> pollutant_value @ '' '' @ u # us
                                | _ \<Rightarrow> pollutant_value))
                         pollutant_data)
             else Inr pollutant_data)
     | _ \<Rightarrow> Inr pollutant_data)))))))"

text \<open>
  The loop over the blocks: an exception in a block is caught (and printed), the
  mapping is as it was before the block, and the loop goes on.
\<close>

fun pollutant_loop :: "element list \<Rightarrow> dict \<Rightarrow> dict" where
  "pollutant_loop [] pollutant_data = pollutant_data"
| "pollutant_loop (el # els) pollutant_data =
     pollutant_loop els
       (case pollutant_block el pollutant_data of
          Inl e \<Rightarrow> pollutant_data
        | Inr d \<Rightarrow> d)"

text \<open>\<open>for p in [...]: if p not in pollutant_data: pollutant_data[p] = "N/A"\<close>.\<close>

fun fill_missing :: "string list \<Rightarrow> dict \<Rightarrow> dict" where
  "fill_missing [] d = d"
| "fill_missing (p # ps) d =
     fill_missing ps (if p \<in> set (keys d) then d else AList.update p (Some ''N/A'') d)"

text \<open>
  \<open>extract_pollutants\<close>: when the query for the blocks raises, the outer handler
  returns the mapping as it is then, which is empty.
\<close>

definition extract_pollutants :: "page \<Rightarrow> dict" where
  "extract_pollutants pg =
     (case page_query_selector_all pg ''.major-pollutant'' of
        Inl e \<Rightarrow> []
      | Inr pollutant_elements \<Rightarrow>
          fill_missing canonical_pollutants (pollutant_loop pollutant_elements []))"

section \<open>The weather-component extractor\<close>

definition weather_block :: "element \<Rightarrow> dict \<Rightarrow> dict result" where
  "weather_block component weather_data =
     and_then (query_selector component ''img'') (\<lambda>img_element.
     case img_element of
       None \<Rightarrow> Inr weather_data
     | Some img \<Rightarrow>
         and_then (get_attribute img ''alt'') (\<lambda>alt.
         and_then (strip_text alt) (\<lambda>alt_stripped.
         let img_alt = lower alt_stripped in
         and_then (query_selector_all component ''span'') (\<lambda>value_elements.
         case value_elements of
           e0 # e1 # _ \<Rightarrow>
             and_then (stripped_text e1) (\<lambda>value_text.
             if contains ''humidity'' img_alt
             then Inr (AList.update ''humidity'' (Some value_text) weather_data)
             else if contains ''wind speed'' img_alt
             then Inr (AList.update ''wind_speed'' (Some value_text) weather_data)
             else if contains ''uv index'' img_alt
             then Inr (AList.update ''uv_index'' (Some value_text) weather_data)
             else Inr weather_data)
         | _ \<Rightarrow> Inr weather_data))))"

fun weather_loop :: "element list \<Rightarrow> dict \<Rightarrow> dict" where
  "weather_loop [] weather_data = weather_data"
| "weather_loop (c # cs) weather_data =
     weather_loop cs
       (case weather_block c weather_data of
          Inl e \<Rightarrow> weather_data
        | Inr d \<Rightarrow> d)"

definition extract_weather_components :: "page \<Rightarrow> dict" where
  "extract_weather_components pg =
     (let weather_data = [(''humidity'', None), (''wind_speed'', None), (''uv_index'', None)] in
      case page_query_selector_all pg ''.component'' of
        Inl e \<Rightarrow> weather_data
      | Inr components \<Rightarrow> weather_loop components weather_data)"

section \<open>The temperature extractor\<close>

text \<open>The selectors \<open>span.text-\[2\.5rem\]\<close> and \<open>span.text-\[1\.7rem\]\<close>.\<close>

definition temperature_value_selector :: string where
  "temperature_value_selector =
     ''span.text-'' @ [CHR 0x5C] @ ''[2'' @ [CHR 0x5C] @ ''.5rem'' @ [CHR 0x5C] @ '']''"

definition temperature_unit_selector :: string where
  "temperature_unit_selector =
     ''span.text-'' @ [CHR 0x5C] @ ''[1'' @ [CHR 0x5C] @ ''.7rem'' @ [CHR 0x5C] @ '']''"

definition extract_temperature :: "page \<Rightarrow> string option result" where
  "extract_temperature pg =
     and_then (page_query_selector pg temperature_value_selector) (\<lambda>temp_value_elem.
     and_then (page_query_selector pg temperature_unit_selector) (\<lambda>temp_unit_elem.
     case (temp_value_elem, temp_unit_elem) of
       (Some v, Some u) \<Rightarrow>
         and_then (stripped_text v) (\<lambda>temp_value.
         and_then (stripped_text u) (\<lambda>temp_unit.
         Inr (Some (temp_value @ temp_unit))))
     | _ \<Rightarrow> Inr None))"

section \<open>The page session driver\<close>

record city =
  name :: string
  display_name :: string
  url :: string

text \<open>
  The clock: \<open>get_vietnam_time()\<close> is the wall time of the zone Asia/Bangkok, seven
  hours ahead of UTC. The month is 1 to 12.
\<close>

record datetime =
  year :: nat
  month :: nat
  day :: nat
  hour :: nat
  minute :: nat
  second :: nat
  microsecond :: nat

text \<open>A number in decimal, padded with zeros on the left to a width.\<close>

definition zero_padded :: "nat \<Rightarrow> nat \<Rightarrow> string" where
  "zero_padded w n = replicate (w - length (str_nat n)) (CHR ''0'') @ str_nat n"

definition isoformat :: "datetime \<Rightarrow> string" where
  "isoformat t =
     zero_padded 4 (year t) @ ''-'' @ zero_padded 2 (month t) @ ''-'' @ zero_padded 2 (day t) @
     ''T'' @ zero_padded 2 (hour t) @ '':'' @ zero_padded 2 (minute t) @ '':'' @
     zero_padded 2 (second t) @
     (if microsecond t = 0 then [] else ''.'' @ zero_padded 6 (microsecond t)) @ ''+07:00''"

text \<open>
  \<open>crawl_city_data\<close>: the body of the \<open>try\<close>, in the order of the source; an
  exception that reaches the handler gives the no-record result \<open>None\<close>.
\<close>

definition crawl_city_body :: "page \<Rightarrow> city \<Rightarrow> datetime \<Rightarrow> dict result" where
  "crawl_city_body pg c now =
     and_then (goto pg (url c)) (\<lambda>_.
     and_then (wait_for_load_state pg ''networkidle'') (\<lambda>_.
     and_then (page_query_selector pg ''span.font-extrabold'') (\<lambda>aqi_element.
     and_then
       (let weather_condition = validate_weather_condition PageHandle in
        if \<not> truthy weather_condition
        then and_then (page_query_selector pg ''span.condition-text'') (\<lambda>wc_elem.
             and_then (text_content_or_empty wc_elem) (\<lambda>weather_condition_raw.
             Inr (validate_weather_condition (StrOrNone weather_condition_raw))))
        else Inr weather_condition) (\<lambda>weather_condition.
     and_then (extract_temperature pg) (\<lambda>temperature0.
     and_then
       (if \<not> truthy temperature0
        then and_then (page_query_selector pg ''.air-quality-forecast-container-weather__label'')
               (\<lambda>temp_elem.
             and_then (text_content_or_empty temp_elem) (\<lambda>temperature_raw.
             validate_temperature temperature_raw))
        else Inr temperature0) (\<lambda>temperature.
     and_then (validate_aqi aqi_element) (\<lambda>aqi.
     let weather_data = extract_weather_components pg;
         pollutant_data = fill_missing canonical_pollutants (extract_pollutants pg)
     in Inr (dict_merge
               [(''timestamp'', Some (isoformat now)),
                (''city'', Some (display_name c)),
                (''aqi'', aqi),
                (''weather_condition'', weather_condition),
                (''wind_speed'', dict_get weather_data ''wind_speed''),
                (''humidity'', dict_get weather_data ''humidity''),
                (''temperature'', temperature),
                (''uv_index'', dict_get weather_data ''uv_index'')]
               pollutant_data))))))))"

definition crawl_city_data :: "page \<Rightarrow> city \<Rightarrow> datetime \<Rightarrow> dict option" where
  "crawl_city_data pg c now =
     (case crawl_city_body pg c now of Inl e \<Rightarrow> None | Inr r \<Rightarrow> Some r)"

section \<open>The CSV sink\<close>

definition headers :: "string list" where
  "headers =
     [''timestamp'', ''city'', ''aqi'', ''weather_condition'', ''wind_speed'', ''humidity'',
      ''temperature'', ''uv_index'', ''pm25'', ''pm10'', ''o3'', ''no2'', ''so2'', ''co'']"

text \<open>
  The files: each file is the list of its rows, a row written by \<open>writeheader\<close> told
  from a row written by \<open>writerow\<close>. The quoting of the fields is left out.
\<close>

datatype csv_row = Header "string list" | Row "string list"

record filesystem =
  dirs :: "string set"
  files :: "string \<rightharpoonup> csv_row list"

text \<open>\<open>now.strftime('%b').lower()\<close> in the C locale.\<close>

definition month_abbr :: "string list" where
  "month_abbr =
     [''Jan'', ''Feb'', ''Mar'', ''Apr'', ''May'', ''Jun'',
      ''Jul'', ''Aug'', ''Sep'', ''Oct'', ''Nov'', ''Dec'']"

definition strftime_b :: "datetime \<Rightarrow> string" where
  "strftime_b t = month_abbr ! (month t - 1)"

text \<open>
  The path \<open>result_dir / filename\<close>. For a city name that is a slug (no separator, not
  empty), joining the path and printing it is the concatenation with \<open>/\<close>.
\<close>

definition result_dir :: "string \<Rightarrow> string" where
  "result_dir city_name = ''result/'' @ city_name"

definition filename :: "string \<Rightarrow> datetime \<Rightarrow> string" where
  "filename city_name now =
     ''aqi_'' @ city_name @ ''_'' @ str_nat (year now) @ ''_'' @ lower (strftime_b now) @ ''.csv''"

definition filepath :: "string \<Rightarrow> datetime \<Rightarrow> string" where
  "filepath city_name now = result_dir city_name @ ''/'' @ filename city_name now"

text \<open>
  \<open>DictWriter.writerow\<close>: a key of the row that is no field name raises \<open>ValueError\<close>;
  otherwise the values in the order of the field names, a missing key and \<open>None\<close> both
  written as the empty field.
\<close>

definition wrong_fields :: "dict \<Rightarrow> string list" where
  "wrong_fields data = filter (\<lambda>k. k \<notin> set headers) (keys data)"

definition dict_to_list :: "dict \<Rightarrow> string list" where
  "dict_to_list data =
     map (\<lambda>k. case dict_get data k of Some v \<Rightarrow> v | None \<Rightarrow> []) headers"

text \<open>
  \<open>save_to_csv\<close>: the directories are made, the file is opened for appending (and
  made when absent), the header is written when the file did not exist before the call,
  then the row; an exception of \<open>writerow\<close> leaves what was written before it.
\<close>

definition save_to_csv :: "dict \<Rightarrow> string \<Rightarrow> datetime \<Rightarrow> filesystem \<Rightarrow> string result \<times> filesystem" where
  "save_to_csv data city_name now fs =
     (let fs1 = fs\<lparr>dirs := insert (result_dir city_name) (insert ''result'' (dirs fs))\<rparr>;
          path = filepath city_name now;
          file_exists = (path \<in> dom (files fs1));
          old_rows = (case files fs1 path of Some rows \<Rightarrow> rows | None \<Rightarrow> []);
          opened = (if file_exists then old_rows else old_rows @ [Header headers])
      in if wrong_fields data \<noteq> []
         then (Inl ValueError, fs1\<lparr>files := (files fs1)(path \<mapsto> opened)\<rparr>)
         else (Inr path,
               fs1\<lparr>files := (files fs1)(path \<mapsto> opened @ [Row (dict_to_list data)])\<rparr>))"

section \<open>Concrete pages\<close>

text \<open>
  Elements and pages given by their text, their attributes and, for each selector,
  the elements it selects; \<open>query_selector\<close> answers the first of them.
\<close>

definition first_of :: "(string \<times> element list) list \<Rightarrow> string \<Rightarrow> element option" where
  "first_of kids s = (case map_of kids s of Some (e # _) \<Rightarrow> Some e | _ \<Rightarrow> None)"

definition all_of :: "(string \<times> element list) list \<Rightarrow> string \<Rightarrow> element list" where
  "all_of kids s = (case map_of kids s of Some es \<Rightarrow> es | None \<Rightarrow> [])"

definition node :: "string \<Rightarrow> (string \<times> string) list \<Rightarrow> (string \<times> element list) list \<Rightarrow> element" where
  "node txt attrs kids =
     Element (Inr (Some txt)) (\<lambda>a. Inr (map_of attrs a))
       (\<lambda>s. Inr (first_of kids s)) (\<lambda>s. Inr (all_of kids s))"

definition loaded_page :: "(string \<times> element list) list \<Rightarrow> page" where
  "loaded_page kids =
     \<lparr>goto = (\<lambda>_. Inr ()), wait_for_load_state = (\<lambda>_. Inr ()),
      page_query_selector = (\<lambda>s. Inr (first_of kids s)),
      page_query_selector_all = (\<lambda>s. Inr (all_of kids s))\<rparr>"

text \<open>A pollutant block with a name label, a bold value span and a unit label.\<close>

definition pollutant_element :: "string \<Rightarrow> string \<Rightarrow> string \<Rightarrow> element" where
  "pollutant_element label val unit =
     node [] []
       [(''.sensor-name'', [text_element label]),
        (''span.font-bold'', [text_element val]),
        (''.sensor-unit'', [text_element unit])]"

text \<open>An element every call on which raises.\<close>

definition faulty_element :: element where
  "faulty_element =
     Element (Inl PlaywrightError) (\<lambda>_. Inl PlaywrightError)
       (\<lambda>_. Inl PlaywrightError) (\<lambda>_. Inl PlaywrightError)"

text \<open>A weather component: an image with an \<open>alt\<close> text, a label span and a value span.\<close>

definition component_element :: "string \<Rightarrow> string \<Rightarrow> string \<Rightarrow> element" where
  "component_element alt label val =
     node [] []
       [(''img'', [node [] [(''alt'', alt)] []]),
        (''span'', [text_element label, text_element val])]"

definition sample_city :: city where
  "sample_city = \<lparr>name = ''hanoi'', display_name = ''Ha Noi'',
     url = ''https://www.aqi.in/dashboard/vietnam/ha-noi''\<rparr>"

definition sample_time :: datetime where
  "sample_time = \<lparr>year = 2025, month = 2, day = 1, hour = 0, minute = 5, second = 9,
     microsecond = 0\<rparr>"

text \<open>A page whose only content is a list of pollutant blocks.\<close>

definition pollutants_page :: "element list \<Rightarrow> page" where
  "pollutants_page blocks = loaded_page [(''.major-pollutant'', blocks)]"

text \<open>
  The label, the value and the unit of a pollutant block are read without an
  exception, as the given stripped texts (the unit may be absent).
\<close>

definition block_reads :: "element \<Rightarrow> string \<Rightarrow> string \<Rightarrow> string option \<Rightarrow> bool" where
  "block_reads b name_text value_text unit_text =
     (and_then (query_selector b ''.sensor-name'') stripped_text_if = Inr (Some name_text) \<and>
      and_then
        (and_then (query_selector b ''span.font-bold'') (\<lambda>bold.
           case bold of None \<Rightarrow> query_selector b ''span'' | Some x \<Rightarrow> Inr (Some x)))
        stripped_text_if = Inr (Some value_text) \<and>
      and_then (query_selector b ''.sensor-unit'') stripped_text_if = Inr unit_text)"

text \<open>What a block stores for a value text and a unit text.\<close>

definition pollutant_entry :: "string \<Rightarrow> string option \<Rightarrow> string" where
  "pollutant_entry value_text unit_text =
     (case unit_text of
        Some (u # us) \<Rightarrow> sub_non_decimal value_text @ '' '' @ u # us
      | _ \<Rightarrow> sub_non_decimal value_text)"

definition faulty_block_page :: page where
  "faulty_block_page =
     pollutants_page
       [pollutant_element ''PM2.5'' ''12.5'' ''ug/m3'', faulty_element,
        pollutant_element ''NO2'' ''7'' ''ppb'']"

definition radon_page :: page where
  "radon_page = pollutants_page [pollutant_element ''Radon'' ''3'' '''']"

definition aqi_label_page :: page where
  "aqi_label_page = pollutants_page [pollutant_element ''AQI'' ''5'' '''']"

text \<open>
  A page with the three weather components and the primary temperature spans: a wind
  speed in miles per hour, a humidity without the percent sign, a UV index of 12, and
  a temperature in degrees Fahrenheit.
\<close>

definition unvalidated_page :: page where
  "unvalidated_page =
     loaded_page
       [(''.component'',
         [component_element ''Humidity'' ''Humidity'' ''75'',
          component_element ''Wind Speed'' ''Wind'' ''12 mph'',
          component_element ''UV Index'' ''UV'' ''12'']),
        (temperature_value_selector, [text_element ''98'']),
        (temperature_unit_selector, [text_element [CHR 0xB0, CHR ''F'']])]"

text \<open>The record of that page, stamped at \<open>sample_time\<close>.\<close>

definition unvalidated_record :: dict where
  "unvalidated_record =
     [(''timestamp'', Some ''2025-02-01T00:05:09+07:00''),
      (''city'', Some ''Ha Noi''), (''aqi'', None),
      (''weather_condition'', None), (''wind_speed'', Some ''12 mph''),
      (''humidity'', Some ''75''), (''temperature'', Some [CHR ''9'', CHR ''8'', CHR 0xB0, CHR ''F'']),
      (''uv_index'', Some ''12''),
      (''pm25'', Some ''N/A''), (''pm10'', Some ''N/A''),
      (''co'', Some ''N/A''), (''so2'', Some ''N/A''), (''no2'', Some ''N/A''),
      (''o3'', Some ''N/A'')]"

section \<open>The CSV sink: what the claims speak of\<close>

text \<open>
  A file of the sink: the header row first, written once, and only data rows after
  it.
\<close>

fun is_data_row :: "csv_row \<Rightarrow> bool" where
  "is_data_row (Row values) = True"
| "is_data_row (Header values) = False"

definition header_once :: "csv_row list \<Rightarrow> bool" where
  "header_once rows =
     (case rows of
        Header h # rs \<Rightarrow> h = headers \<and> list_all is_data_row rs
      | _ \<Rightarrow> False)"

definition empty_filesystem :: filesystem where
  "empty_filesystem = \<lparr>dirs = {}, files = Map.empty\<rparr>"

text \<open>
  The path as the specification words it, with the year and the month read from the
  record's \<open>timestamp\<close> field (\<open>YYYY-MM-...\<close>).
\<close>

definition spec_filepath :: "string \<Rightarrow> dict \<Rightarrow> string" where
  "spec_filepath slug data =
     (let ts = (case dict_get data ''timestamp'' of Some t \<Rightarrow> t | None \<Rightarrow> []) in
      ''result/'' @ slug @ ''/aqi_'' @ slug @ ''_'' @ take 4 ts @ ''_'' @
      lower (month_abbr ! (digits_value (take 2 (drop 5 ts)) - 1)) @ ''.csv'')"

definition january_time :: datetime where
  "january_time = \<lparr>year = 2025, month = 1, day = 31, hour = 23, minute = 59, second = 59,
     microsecond = 0\<rparr>"

text \<open>The record of a page without content, stamped at \<open>january_time\<close>.\<close>

definition january_record :: dict where
  "january_record =
     [(''timestamp'', Some ''2025-01-31T23:59:59+07:00''),
      (''city'', Some ''Ha Noi''), (''aqi'', None),
      (''weather_condition'', None), (''wind_speed'', None),
      (''humidity'', None), (''temperature'', None), (''uv_index'', None),
      (''pm25'', Some ''N/A''), (''pm10'', Some ''N/A''),
      (''co'', Some ''N/A''), (''so2'', Some ''N/A''), (''no2'', Some ''N/A''),
      (''o3'', Some ''N/A'')]"

text \<open>The three-letter lower-case month names.\<close>

definition lower_month_names :: "string list" where
  "lower_month_names =
     [''jan'', ''feb'', ''mar'', ''apr'', ''may'', ''jun'',
      ''jul'', ''aug'', ''sep'', ''oct'', ''nov'', ''dec'']"

text \<open>A second save in the same month, with a record that has an AQI.\<close>

definition second_time :: datetime where
  "second_time = \<lparr>year = 2025, month = 2, day = 2, hour = 13, minute = 0, second = 0,
     microsecond = 0\<rparr>"

definition second_record :: dict where
  "second_record = AList.update ''aqi'' (Some ''42'') january_record"

text \<open>
  The record of a page whose only pollutant block is labelled \<open>Radon\<close>, stamped at
  \<open>sample_time\<close>.
\<close>

definition radon_record :: dict where
  "radon_record =
     [(''timestamp'', Some ''2025-02-01T00:05:09+07:00''),
      (''city'', Some ''Ha Noi''), (''aqi'', None),
      (''weather_condition'', None), (''wind_speed'', None),
      (''humidity'', None), (''temperature'', None), (''uv_index'', None),
      (''radon'', Some ''3''),
      (''pm25'', Some ''N/A''), (''pm10'', Some ''N/A''),
      (''co'', Some ''N/A''), (''so2'', Some ''N/A''), (''no2'', Some ''N/A''),
      (''o3'', Some ''N/A'')]"

section \<open>The temperature validator: what the claims speak of\<close>

text \<open>
  The value in degrees Celsius that the validator takes for a parsed number: a number
  above 50 is read as degrees Fahrenheit.
\<close>

definition celsius_of :: "pyfloat \<Rightarrow> pyfloat" where
  "celsius_of v = (if float_gt v 50 then fahrenheit_to_celsius v else v)"

text \<open>
  A number printed with one decimal place: an optional minus sign, one digit or more,
  a dot, one digit.
\<close>

definition one_decimal :: "string \<Rightarrow> bool" where
  "one_decimal s =
     (let b = (case s of c # cs \<Rightarrow> if c = CHR ''-'' then cs else s | [] \<Rightarrow> []);
          ip = takeWhile is_digit b;
          r = dropWhile is_digit b
      in ip \<noteq> [] \<and> (case r of [c, d] \<Rightarrow> c = CHR ''.'' \<and> is_digit d | _ \<Rightarrow> False))"

section \<open>The wind-speed validator: what the claims speak of\<close>

text \<open>
  The texts of the form \<open><number> (km/h|mph)\<close>: the integer digits \<open>ip\<close>, the
  fraction digits \<open>fp\<close> (written after a dot when there are any), white space \<open>ws\<close>
  (any amount of it), and the unit \<open>u\<close>.
\<close>

definition wind_speed_text :: "string \<Rightarrow> string \<Rightarrow> string \<Rightarrow> string \<Rightarrow> string" where
  "wind_speed_text ip fp ws u = ip @ (if fp = [] then [] else CHR ''.'' # fp) @ ws @ u"

definition wind_speed_parts :: "string \<Rightarrow> string \<Rightarrow> string \<Rightarrow> string \<Rightarrow> bool" where
  "wind_speed_parts ip fp ws u =
     (ip \<noteq> [] \<and> list_all is_digit ip \<and> list_all is_digit fp \<and> list_all is_space ws \<and>
      (u = ''km/h'' \<or> u = ''mph''))"

text \<open>
  The raw text that the validator reads from an element: the text of the element
  when it has no child span, else the texts of the first and of the second span (the
  unit \<open>km/h\<close> when there is one span only), with a space between; all trimmed.
\<close>

definition wind_speed_raw :: "element \<Rightarrow> string result" where
  "wind_speed_raw el =
     and_then (query_selector_all el ''span'') (\<lambda>child_spans.
     case child_spans of
       [] \<Rightarrow> stripped_text el
     | sp0 # others \<Rightarrow>
         and_then (stripped_text sp0) (\<lambda>wind_value.
         and_then (case others of
                     sp1 # _ \<Rightarrow> stripped_text sp1
                   | [] \<Rightarrow> Inr ''km/h'') (\<lambda>wind_unit.
         Inr (wind_value @ '' '' @ wind_unit))))"

text \<open>An element with two child spans, the value and the unit.\<close>

definition two_span_element :: "string \<Rightarrow> string \<Rightarrow> element" where
  "two_span_element v u = node [] [] [(''span'', [text_element v, text_element u])]"

section \<open>Strings: basic facts\<close>

lemma startswith_iff: "startswith s p \<longleftrightarrow> (\<exists>v. s = p @ v)"
  by (induction s p rule: startswith.induct) auto

lemma contains_iff: "contains p s \<longleftrightarrow> occurs_in p s"
proof (induction s)
  case Nil
  show ?case by (auto simp: occurs_in_def)
next
  case (Cons c cs)
  show ?case
  proof
    assume "contains p (c # cs)"
    then consider "startswith (c # cs) p" | "contains p cs" by auto
    then show "occurs_in p (c # cs)"
    proof cases
      case 1
      then obtain v where "c # cs = p @ v" by (auto simp: startswith_iff)
      then have "c # cs = [] @ p @ v" by simp
      then show ?thesis unfolding occurs_in_def by blast
    next
      case 2
      with Cons obtain u v where "cs = u @ p @ v" by (auto simp: occurs_in_def)
      then have "c # cs = (c # u) @ p @ v" by simp
      then show ?thesis unfolding occurs_in_def by blast
    qed
  next
    assume "occurs_in p (c # cs)"
    then obtain u v where uv: "c # cs = u @ p @ v" by (auto simp: occurs_in_def)
    show "contains p (c # cs)"
    proof (cases u)
      case Nil
      with uv have "startswith (c # cs) p" by (auto simp: startswith_iff)
      then show ?thesis by simp
    next
      case (Cons a u')
      with uv have "cs = u' @ p @ v" by simp
      then have "occurs_in p cs" unfolding occurs_in_def by blast
      with Cons.IH show ?thesis by simp
    qed
  qed
qed

section \<open>The pollutant normalizer: results\<close>

text \<open>
  C5. The pollutant normalizer is an ordered, first-match-wins substring match on the
  lowered label: the key of the first rule among pm2.5, pm10, co, so2, no2, o3 whose
  substring occurs in the lowered label, and the trimmed lowered label when no rule
  matches. It is case-insensitive: two labels with the same lowered form get the same
  key. \<open>PM2.5\<close> gives \<open>pm25\<close>, \<open>NO2\<close> followed by a space gives \<open>no2\<close>, \<open>Radon\<close> gives
  \<open>radon\<close>.
\<close>

theorem normalize_pollutant_name_first_match:
  "normalize_pollutant_name label =
     (case first_match pollutant_rules (lower label) of
        Some k \<Rightarrow> k
      | None \<Rightarrow> strip (lower label)) \<and>
   (lower label = lower label' \<longrightarrow>
      normalize_pollutant_name label = normalize_pollutant_name label') \<and>
   normalize_pollutant_name ''PM2.5'' = ''pm25'' \<and>
   normalize_pollutant_name ''NO2 '' = ''no2'' \<and>
   normalize_pollutant_name ''Radon'' = ''radon''"
proof -
  have rules: "normalize_pollutant_name label =
     (case first_match pollutant_rules (lower label) of
        Some k \<Rightarrow> k
      | None \<Rightarrow> strip (lower label))"
    by (simp add: normalize_pollutant_name_def pollutant_rules_def contains_iff Let_def)
  have caseless: "lower label = lower label' \<longrightarrow>
      normalize_pollutant_name label = normalize_pollutant_name label'"
    by (simp add: normalize_pollutant_name_def)
  have pm25: "normalize_pollutant_name ''PM2.5'' = ''pm25''"
    by (simp add: normalize_pollutant_name_def lower_def lower_char_def upper_chars_def
        lower_chars_def)
  have no2: "normalize_pollutant_name ''NO2 '' = ''no2''"
    by (simp add: normalize_pollutant_name_def lower_def lower_char_def upper_chars_def
        lower_chars_def)
  have radon: "normalize_pollutant_name ''Radon'' = ''radon''"
    by (simp add: normalize_pollutant_name_def lower_def lower_char_def upper_chars_def
        lower_chars_def strip_def is_space_def whitespace_chars_def)
  from rules caseless pm25 no2 radon show ?thesis by blast
qed

theorem normalize_pollutant_name_first_match_witness:
  "lower ''pm2.5 (Fine)'' = lower ''PM2.5 (fine)'' \<and>
   normalize_pollutant_name ''pm2.5 (Fine)'' = normalize_pollutant_name ''PM2.5 (fine)''"
proof -
  have h: "lower ''pm2.5 (Fine)'' = lower ''PM2.5 (fine)''"
    by (simp add: lower_def lower_char_def upper_chars_def lower_chars_def)
  from normalize_pollutant_name_first_match [of "''pm2.5 (Fine)''" "''PM2.5 (fine)''"] h
  show ?thesis by blast
qed

section \<open>The AQI validator: results\<close>

lemma is_digit_not_space: "is_digit c \<Longrightarrow> \<not> is_space c"
  by (auto simp: is_digit_def is_space_def digit_chars_def whitespace_chars_def)

lemma filter_dropWhile_disjoint:
  "(\<And>x. Q x \<Longrightarrow> \<not> P x) \<Longrightarrow> filter P (dropWhile Q xs) = filter P xs"
  by (induction xs) auto

lemma filter_digit_strip: "filter is_digit (strip s) = filter is_digit s"
proof -
  have "filter is_digit (strip s) = rev (filter is_digit (dropWhile is_space (rev (dropWhile is_space s))))"
    by (simp add: strip_def rev_filter)
  also have "\<dots> = rev (filter is_digit (rev (dropWhile is_space s)))"
    using is_digit_not_space by (subst filter_dropWhile_disjoint) auto
  also have "\<dots> = filter is_digit (dropWhile is_space s)"
    by (simp add: rev_filter)
  also have "\<dots> = filter is_digit s"
    using is_digit_not_space by (subst filter_dropWhile_disjoint) auto
  finally show ?thesis .
qed

lemma isdigit_filter: "isdigit (filter is_digit s) \<longleftrightarrow> filter is_digit s \<noteq> []"
  by (auto simp: isdigit_def list_all_iff)

lemma dropWhile_none: "\<forall>c \<in> set xs. \<not> P c \<Longrightarrow> dropWhile P xs = xs"
  by (cases xs) auto

lemma strip_no_space: "\<forall>c \<in> set s. \<not> is_space c \<Longrightarrow> strip s = s"
  by (simp add: strip_def dropWhile_none)

lemma int_body_ok_digits: "s \<noteq> [] \<Longrightarrow> \<forall>c \<in> set s. is_digit c \<Longrightarrow> int_body_ok s"
proof (induction s rule: int_body_ok.induct)
  case (3 c d cs)
  then have "d \<noteq> CHR ''_''" by (auto simp: is_digit_def digit_chars_def)
  with 3 show ?case by simp
qed auto

lemma py_int_digits:
  assumes "s \<noteq> []" "\<forall>c \<in> set s. is_digit c"
  shows "py_int s = Inr (int (digits_value s))"
proof -
  from assms have st: "strip s = s" using is_digit_not_space by (intro strip_no_space) auto
  from assms obtain c cs where s: "s = c # cs" by (cases s) auto
  with assms have "is_digit c" by simp
  then have c: "c \<noteq> CHR ''-''" "c \<noteq> CHR ''+''" by (auto simp: is_digit_def digit_chars_def)
  from assms have f: "filter is_digit s = s" by (simp add: filter_id_conv)
  from assms have ok: "int_body_ok s" by (rule int_body_ok_digits)
  show ?thesis using st c f ok s by (simp add: py_int_def)
qed

lemma validate_aqi_raw:
  assumes "get_attribute el ''title'' = Inr a" "text_content el = Inr (Some t)"
  shows "validate_aqi (Some el) = Inr (aqi_of_raw (raw_aqi_text a t))"
proof -
  define raw0 where "raw0 = (case a of Some (c # cs) \<Rightarrow> c # cs | _ \<Rightarrow> strip t)"
  have d: "filter is_digit raw0 = filter is_digit (raw_aqi_text a t)"
    by (auto simp: raw0_def raw_aqi_text_def filter_digit_strip split: option.splits list.splits)
  have step: "(case a of Some (c # cs) \<Rightarrow> Inr (c # cs) | _ \<Rightarrow> stripped_text el) = Inr raw0"
    using assms(2) by (auto simp: raw0_def stripped_text_def and_then_def strip_text_def split: option.splits list.splits)
  define ds where "ds = filter is_digit (raw_aqi_text a t)"
  have pi: "ds \<noteq> [] \<Longrightarrow> py_int ds = Inr (int (digits_value ds))"
    by (rule py_int_digits) (auto simp: ds_def)
  have "validate_aqi (Some el) =
      except_validation (if isdigit ds then and_then (py_int ds) (\<lambda>i. if 0 \<le> i \<and> i \<le> 500 then Inr (Some (py_str i)) else Inr None) else Inr None)"
    using assms(1) step d by (simp add: validate_aqi_def and_then_def sub_non_digits_def ds_def Let_def)
  also have "\<dots> = Inr (aqi_of_raw (raw_aqi_text a t))"
  proof (cases "ds = []")
    case True
    then show ?thesis
      by (simp add: isdigit_def aqi_of_raw_def ds_def[symmetric] except_validation_def)
  next
    case False
    then have "isdigit ds" by (simp add: ds_def isdigit_filter)
    with False pi show ?thesis
      by (simp add: aqi_of_raw_def ds_def[symmetric] and_then_def except_validation_def
          py_str_def)
  qed
  finally show ?thesis .
qed

text \<open>
  C2 (as amended). For an element whose title and text can be read, the AQI validator
  returns the decimal value of the digits of the raw text (the non-empty title, else
  the visible text) exactly when digits remain after the non-digit characters are
  stripped and their value is in [0,500], and the absence marker otherwise. \<open>501\<close> and
  \<open>abc\<close> give the absence marker, \<open>42\<close> gives \<open>42\<close>; in \<open>-1\<close> the sign is stripped with
  the other non-digits, so it gives \<open>1\<close>.
\<close>

theorem validate_aqi_accepts:
  "(get_attribute el ''title'' = Inr a \<and> text_content el = Inr (Some t) \<longrightarrow>
      validate_aqi (Some el) = Inr (aqi_of_raw (raw_aqi_text a t))) \<and>
   (aqi_of_raw raw \<noteq> None \<longleftrightarrow>
      filter is_digit raw \<noteq> [] \<and> digits_value (filter is_digit raw) \<le> 500) \<and>
   validate_aqi (Some (text_element ''501'')) = Inr None \<and>
   validate_aqi (Some (text_element ''abc'')) = Inr None \<and>
   validate_aqi (Some (text_element ''42'')) = Inr (Some ''42'') \<and>
   validate_aqi (Some (text_element ''-1'')) = Inr (Some ''1'')"
proof -
  have general: "get_attribute el ''title'' = Inr a \<and> text_content el = Inr (Some t) \<longrightarrow>
      validate_aqi (Some el) = Inr (aqi_of_raw (raw_aqi_text a t))"
    using validate_aqi_raw by blast
  have iff: "aqi_of_raw raw \<noteq> None \<longleftrightarrow>
      filter is_digit raw \<noteq> [] \<and> digits_value (filter is_digit raw) \<le> 500"
    by (simp add: aqi_of_raw_def Let_def)
  have e1: "validate_aqi (Some (text_element ''501'')) = Inr None" by code_simp
  have e2: "validate_aqi (Some (text_element ''abc'')) = Inr None" by code_simp
  have e3: "validate_aqi (Some (text_element ''42'')) = Inr (Some ''42'')" by code_simp
  have e4: "validate_aqi (Some (text_element ''-1'')) = Inr (Some ''1'')" by code_simp
  from general iff e1 e2 e3 e4 show ?thesis by blast
qed

theorem validate_aqi_accepts_witness:
  "get_attribute (titled_element ''AQI 57'' ''300'') ''title'' = Inr (Some ''AQI 57'') \<and>
   text_content (titled_element ''AQI 57'' ''300'') = Inr (Some ''300'') \<and>
   validate_aqi (Some (titled_element ''AQI 57'' ''300'')) = Inr (Some ''57'')"
proof -
  have h: "get_attribute (titled_element ''AQI 57'' ''300'') ''title'' = Inr (Some ''AQI 57'') \<and>
      text_content (titled_element ''AQI 57'' ''300'') = Inr (Some ''300'')"
    by (simp add: titled_element_def)
  have v: "aqi_of_raw (raw_aqi_text (Some ''AQI 57'') ''300'') = Some ''57''"
    by code_simp
  from validate_aqi_accepts [of "titled_element ''AQI 57'' ''300''" "Some ''AQI 57''" "''300''"] h v
  show ?thesis by simp
qed

text \<open>
  The claim as first stated has \<open>-1\<close> rejected; the validator accepts it as \<open>1\<close>.
\<close>

theorem validate_aqi_minus_one_counterexample:
  "validate_aqi (Some (text_element ''-1'')) = Inr (Some ''1'') \<and>
   validate_aqi (Some (text_element ''-1'')) \<noteq> Inr None"
proof -
  have "validate_aqi (Some (text_element ''-1'')) = Inr (Some ''1'')" by code_simp
  then show ?thesis by simp
qed

section \<open>The record of the page session driver: results\<close>

lemma keys_update: "set (keys (AList.update k v d)) = insert k (set (keys d))"
  using AList.dom_update [of k v d] by (simp add: keys_def)

lemma keys_Cons: "keys ((k, v) # d) = k # keys d"
  by (simp add: keys_def)

lemma keys_dict_merge: "set (keys (dict_merge d e)) = set (keys d) \<union> set (keys e)"
proof -
  have "set (keys (foldl (\<lambda>acc (k, v). AList.update k v acc) d e)) = set (keys d) \<union> set (keys e)"
  proof (induction e arbitrary: d)
    case Nil
    show ?case by (simp add: keys_def)
  next
    case (Cons kv e)
    obtain k v where kv: "kv = (k, v)" by (cases kv)
    have "set (keys (foldl (\<lambda>acc (k, v). AList.update k v acc) d (kv # e))) =
        set (keys (AList.update k v d)) \<union> set (keys e)"
      using Cons.IH [of "AList.update k v d"] by (simp add: kv)
    also have "\<dots> = set (keys d) \<union> set (keys (kv # e))"
      by (auto simp: keys_update kv keys_Cons)
    finally show ?case .
  qed
  then show ?thesis by (simp add: dict_merge_def)
qed

lemma keys_fill_missing: "set (keys (fill_missing ps d)) = set ps \<union> set (keys d)"
  by (induction ps arbitrary: d) (auto simp: keys_update)

lemma headers_split:
  "set headers = set [''timestamp'', ''city'', ''aqi'', ''weather_condition'', ''wind_speed'',
     ''humidity'', ''temperature'', ''uv_index''] \<union> set canonical_pollutants"
  by (auto simp: headers_def canonical_pollutants_def)

lemma crawl_city_body_keys:
  assumes "crawl_city_body pg c now = Inr r"
  shows "set (keys r) = set headers \<union> set (keys (extract_pollutants pg))"
proof -
  from assms obtain aqi wc temp where
    r: "r = dict_merge
               [(''timestamp'', Some (isoformat now)),
                (''city'', Some (display_name c)),
                (''aqi'', aqi),
                (''weather_condition'', wc),
                (''wind_speed'', dict_get (extract_weather_components pg) ''wind_speed''),
                (''humidity'', dict_get (extract_weather_components pg) ''humidity''),
                (''temperature'', temp),
                (''uv_index'', dict_get (extract_weather_components pg) ''uv_index'')]
               (fill_missing canonical_pollutants (extract_pollutants pg))"
    unfolding crawl_city_body_def and_then_def Let_def
    by (auto split: sum.splits if_splits)
  show ?thesis
    unfolding r keys_dict_merge keys_fill_missing headers_split
    by (auto simp: keys_def)
qed
lemma pollutant_loop_append:
  "pollutant_loop (xs @ ys) d = pollutant_loop ys (pollutant_loop xs d)"
  by (induction xs arbitrary: d) auto

lemma pollutant_block_reads:
  assumes "block_reads b n v u" "n \<noteq> []" "sub_non_decimal v \<noteq> []"
  shows "pollutant_block b d =
    Inr (AList.update (normalize_pollutant_name n) (Some (pollutant_entry v u)) d)"
proof -
  from assms(3) have v: "v \<noteq> []" by (auto simp: sub_non_decimal_def)
  from assms(2) obtain n0 ns where n: "n = n0 # ns" by (cases n) auto
  from v obtain v0 vs where vv: "v = v0 # vs" by (cases v) auto
  from assms(1) obtain ne where ne: "query_selector b ''.sensor-name'' = Inr ne"
      "stripped_text_if ne = Inr (Some n)"
    by (auto simp: block_reads_def and_then_def split: sum.splits)
  from assms(1) obtain bold ve where ve: "query_selector b ''span.font-bold'' = Inr bold"
      "(case bold of None \<Rightarrow> query_selector b ''span'' | Some x \<Rightarrow> Inr (Some x)) = Inr ve"
      "stripped_text_if ve = Inr (Some v)"
    by (auto simp: block_reads_def and_then_def split: sum.splits)
  from assms(1) obtain ue where ue: "query_selector b ''.sensor-unit'' = Inr ue"
      "stripped_text_if ue = Inr u"
    by (auto simp: block_reads_def and_then_def split: sum.splits)
  show ?thesis
    using assms(3) ne ve ue unfolding n vv pollutant_block_def
    by (simp add: and_then_def pollutant_entry_def Let_def)
qed

lemma pollutant_block_keys:
  "pollutant_block b d = Inr d' \<Longrightarrow> set (keys d) \<subseteq> set (keys d')"
  unfolding pollutant_block_def and_then_def Let_def
  by (auto simp: keys_update split: sum.splits option.splits list.splits if_splits)

lemma pollutant_loop_keys_mono: "set (keys d) \<subseteq> set (keys (pollutant_loop bs d))"
proof (induction bs arbitrary: d)
  case Nil
  show ?case by simp
next
  case (Cons b bs)
  show ?case
  proof (cases "pollutant_block b d")
    case (Inl e)
    with Cons.IH [of d] show ?thesis by simp
  next
    case (Inr d')
    with Cons.IH [of d'] pollutant_block_keys [OF Inr] show ?thesis by auto
  qed
qed
lemma block_key_in_loop:
  assumes "b \<in> set bs" "\<And>d. pollutant_block b d = Inr (AList.update k v d)"
  shows "k \<in> set (keys (pollutant_loop bs d))"
proof -
  from assms(1) obtain xs ys where bs: "bs = xs @ b # ys" by (auto dest: split_list)
  define d1 where "d1 = pollutant_loop xs d"
  have "pollutant_loop bs d = pollutant_loop ys (AList.update k v d1)"
    by (simp add: bs pollutant_loop_append d1_def assms(2))
  moreover have "k \<in> set (keys (AList.update k v d1))" by (simp add: keys_update)
  ultimately show ?thesis using pollutant_loop_keys_mono by fastforce
qed

lemma crawl_city_data_keys:
  "crawl_city_data pg c now = Some r \<Longrightarrow>
     set (keys r) = set headers \<union> set (keys (extract_pollutants pg))"
  by (auto simp: crawl_city_data_def dest: crawl_city_body_keys split: sum.splits)

text \<open>
  C6. Whenever the page session driver returns a record (and not the no-record
  result), each of the 14 fixed header names is a key of the record.
\<close>

theorem crawl_city_data_record_complete:
  "crawl_city_data pg c now = Some r \<longrightarrow>
     set headers \<subseteq> set (keys r) \<and> length headers = 14 \<and> distinct headers"
proof
  assume "crawl_city_data pg c now = Some r"
  then have "set headers \<subseteq> set (keys r)" by (simp add: crawl_city_data_keys)
  moreover have "length headers = 14 \<and> distinct headers" by (simp add: headers_def)
  ultimately show "set headers \<subseteq> set (keys r) \<and> length headers = 14 \<and> distinct headers"
    by simp
qed

theorem crawl_city_data_record_complete_witness:
  "crawl_city_data (loaded_page []) sample_city sample_time =
     Some [(''timestamp'', Some ''2025-02-01T00:05:09+07:00''),
           (''city'', Some ''Ha Noi''), (''aqi'', None),
           (''weather_condition'', None), (''wind_speed'', None),
           (''humidity'', None), (''temperature'', None), (''uv_index'', None),
           (''pm25'', Some ''N/A''), (''pm10'', Some ''N/A''),
           (''co'', Some ''N/A''), (''so2'', Some ''N/A''), (''no2'', Some ''N/A''),
           (''o3'', Some ''N/A'')] \<and>
   set headers \<subseteq> set (keys
          [(''timestamp'', Some ''2025-02-01T00:05:09+07:00''),
           (''city'', Some ''Ha Noi''), (''aqi'', None),
           (''weather_condition'', None), (''wind_speed'', None),
           (''humidity'', None), (''temperature'', None), (''uv_index'', None),
           (''pm25'', Some ''N/A''), (''pm10'', Some ''N/A''),
           (''co'', Some ''N/A''), (''so2'', Some ''N/A''), (''no2'', Some ''N/A''),
           (''o3'', Some ''N/A'')])"
proof -
  have h: "crawl_city_data (loaded_page []) sample_city sample_time =
     Some [(''timestamp'', Some ''2025-02-01T00:05:09+07:00''),
           (''city'', Some ''Ha Noi''), (''aqi'', None),
           (''weather_condition'', None), (''wind_speed'', None),
           (''humidity'', None), (''temperature'', None), (''uv_index'', None),
           (''pm25'', Some ''N/A''), (''pm10'', Some ''N/A''),
           (''co'', Some ''N/A''), (''so2'', Some ''N/A''), (''no2'', Some ''N/A''),
           (''o3'', Some ''N/A'')]"
    by code_simp
  from crawl_city_data_record_complete [of "loaded_page []" sample_city sample_time] h
  show ?thesis by simp
qed

text \<open>
  C9. When the processing of one pollutant block raises, the extractor goes on with
  the remaining blocks: the result is the one for the page without that block, so
  the entries of the other blocks are extracted, and the six canonical pollutant keys
  are present.
\<close>

theorem extract_pollutants_isolates_fault:
  "page_query_selector_all pg ''.major-pollutant'' = Inr (before @ b # after) \<and>
   pollutant_block b (pollutant_loop before []) = Inl e \<longrightarrow>
     extract_pollutants pg =
       fill_missing canonical_pollutants (pollutant_loop (before @ after) []) \<and>
     extract_pollutants pg =
       extract_pollutants
         (pg\<lparr>page_query_selector_all :=
               (page_query_selector_all pg)(''.major-pollutant'' := Inr (before @ after))\<rparr>) \<and>
     set canonical_pollutants \<subseteq> set (keys (extract_pollutants pg))"
proof
  assume h: "page_query_selector_all pg ''.major-pollutant'' = Inr (before @ b # after) \<and>
   pollutant_block b (pollutant_loop before []) = Inl e"
  have skip: "pollutant_loop (before @ b # after) [] = pollutant_loop (before @ after) []"
    using h by (simp add: pollutant_loop_append)
  have 1: "extract_pollutants pg =
       fill_missing canonical_pollutants (pollutant_loop (before @ after) [])"
    using h skip by (simp add: extract_pollutants_def)
  have 2: "extract_pollutants
         (pg\<lparr>page_query_selector_all :=
               (page_query_selector_all pg)(''.major-pollutant'' := Inr (before @ after))\<rparr>) =
       fill_missing canonical_pollutants (pollutant_loop (before @ after) [])"
    by (simp add: extract_pollutants_def)
  have 3: "set canonical_pollutants \<subseteq> set (keys (extract_pollutants pg))"
    unfolding 1 by (simp add: keys_fill_missing)
  from 1 2 3 show "extract_pollutants pg =
       fill_missing canonical_pollutants (pollutant_loop (before @ after) []) \<and>
     extract_pollutants pg =
       extract_pollutants
         (pg\<lparr>page_query_selector_all :=
               (page_query_selector_all pg)(''.major-pollutant'' := Inr (before @ after))\<rparr>) \<and>
     set canonical_pollutants \<subseteq> set (keys (extract_pollutants pg))"
    by simp
qed
theorem extract_pollutants_isolates_fault_witness:
  "page_query_selector_all faulty_block_page ''.major-pollutant'' =
     Inr ([pollutant_element ''PM2.5'' ''12.5'' ''ug/m3''] @ faulty_element #
          [pollutant_element ''NO2'' ''7'' ''ppb'']) \<and>
   pollutant_block faulty_element
     (pollutant_loop [pollutant_element ''PM2.5'' ''12.5'' ''ug/m3''] []) = Inl PlaywrightError \<and>
   extract_pollutants faulty_block_page =
     [(''pm25'', Some ''12.5 ug/m3''), (''no2'', Some ''7 ppb''), (''pm10'', Some ''N/A''),
      (''co'', Some ''N/A''), (''so2'', Some ''N/A''), (''o3'', Some ''N/A'')]"
proof -
  have h1: "page_query_selector_all faulty_block_page ''.major-pollutant'' =
     Inr ([pollutant_element ''PM2.5'' ''12.5'' ''ug/m3''] @ faulty_element #
          [pollutant_element ''NO2'' ''7'' ''ppb''])"
    by (simp add: faulty_block_page_def pollutants_page_def loaded_page_def all_of_def)
  have h2: "pollutant_block faulty_element
     (pollutant_loop [pollutant_element ''PM2.5'' ''12.5'' ''ug/m3''] []) = Inl PlaywrightError"
    by (simp add: pollutant_block_def faulty_element_def and_then_def)
  have v: "fill_missing canonical_pollutants
      (pollutant_loop ([pollutant_element ''PM2.5'' ''12.5'' ''ug/m3''] @
          [pollutant_element ''NO2'' ''7'' ''ppb'']) []) =
     [(''pm25'', Some ''12.5 ug/m3''), (''no2'', Some ''7 ppb''), (''pm10'', Some ''N/A''),
      (''co'', Some ''N/A''), (''so2'', Some ''N/A''), (''o3'', Some ''N/A'')]"
    by code_simp
  from extract_pollutants_isolates_fault
    [of faulty_block_page "[pollutant_element ''PM2.5'' ''12.5'' ''ug/m3'']" faulty_element
        "[pollutant_element ''NO2'' ''7'' ''ppb'']" PlaywrightError] h1 h2 v
  show ?thesis by simp
qed

text \<open>
  C10 (as amended). For a pollutant block of the page whose label and value can be
  read, the label not empty and the value containing a digit: the block stores the
  key that the normalizer gives the label, with its value, in the pollutant mapping;
  when that key is none of the 14 fixed header names and the driver returns a record,
  the key is a field of the record and the record's key set is not contained in the
  header list.
\<close>

theorem unknown_pollutant_is_extra_field:
  "page_query_selector_all pg ''.major-pollutant'' = Inr bs \<and> b \<in> set bs \<and>
   block_reads b n v u \<and> n \<noteq> [] \<and> (\<exists>x \<in> set v. is_digit x) \<and>
   normalize_pollutant_name n \<notin> set headers \<and>
   crawl_city_data pg c now = Some r \<longrightarrow>
     pollutant_block b d =
       Inr (AList.update (normalize_pollutant_name n) (Some (pollutant_entry v u)) d) \<and>
     normalize_pollutant_name n \<in> set (keys (extract_pollutants pg)) \<and>
     normalize_pollutant_name n \<in> set (keys r) \<and>
     \<not> set (keys r) \<subseteq> set headers"
proof
  assume h: "page_query_selector_all pg ''.major-pollutant'' = Inr bs \<and> b \<in> set bs \<and>
   block_reads b n v u \<and> n \<noteq> [] \<and> (\<exists>x \<in> set v. is_digit x) \<and>
   normalize_pollutant_name n \<notin> set headers \<and>
   crawl_city_data pg c now = Some r"
  define k where "k = normalize_pollutant_name n"
  from h have "sub_non_decimal v \<noteq> []"
    by (auto simp: sub_non_decimal_def filter_empty_conv)
  with h have stores: "\<And>d. pollutant_block b d = Inr (AList.update k (Some (pollutant_entry v u)) d)"
    unfolding k_def by (intro pollutant_block_reads) auto
  with h have "k \<in> set (keys (pollutant_loop bs []))"
    by (intro block_key_in_loop) auto
  with h have ex: "k \<in> set (keys (extract_pollutants pg))"
    by (simp add: extract_pollutants_def keys_fill_missing)
  from h have "set (keys r) = set headers \<union> set (keys (extract_pollutants pg))"
    by (intro crawl_city_data_keys) auto
  with ex have rk: "k \<in> set (keys r)" by simp
  from h have "k \<notin> set headers" by (simp add: k_def)
  with rk have "\<not> set (keys r) \<subseteq> set headers" by auto
  with stores ex rk show "pollutant_block b d =
       Inr (AList.update (normalize_pollutant_name n) (Some (pollutant_entry v u)) d) \<and>
     normalize_pollutant_name n \<in> set (keys (extract_pollutants pg)) \<and>
     normalize_pollutant_name n \<in> set (keys r) \<and>
     \<not> set (keys r) \<subseteq> set headers"
    by (simp add: k_def)
qed
theorem unknown_pollutant_is_extra_field_witness:
  "page_query_selector_all radon_page ''.major-pollutant'' =
     Inr [pollutant_element ''Radon'' ''3'' ''''] \<and>
   block_reads (pollutant_element ''Radon'' ''3'' '''') ''Radon'' ''3'' (Some '''') \<and>
   normalize_pollutant_name ''Radon'' = ''radon'' \<and> ''radon'' \<notin> set headers \<and>
   crawl_city_data radon_page sample_city sample_time =
     Some [(''timestamp'', Some ''2025-02-01T00:05:09+07:00''),
           (''city'', Some ''Ha Noi''), (''aqi'', None),
           (''weather_condition'', None), (''wind_speed'', None),
           (''humidity'', None), (''temperature'', None), (''uv_index'', None),
           (''radon'', Some ''3''),
           (''pm25'', Some ''N/A''), (''pm10'', Some ''N/A''),
           (''co'', Some ''N/A''), (''so2'', Some ''N/A''), (''no2'', Some ''N/A''),
           (''o3'', Some ''N/A'')] \<and>
   \<not> set (keys
         [(''timestamp'', Some ''2025-02-01T00:05:09+07:00''),
           (''city'', Some ''Ha Noi''), (''aqi'', None),
           (''weather_condition'', None), (''wind_speed'', None),
           (''humidity'', None), (''temperature'', None), (''uv_index'', None),
           (''radon'', Some ''3''),
           (''pm25'', Some ''N/A''), (''pm10'', Some ''N/A''),
           (''co'', Some ''N/A''), (''so2'', Some ''N/A''), (''no2'', Some ''N/A''),
           (''o3'', Some ''N/A'')]) \<subseteq> set headers"
proof -
  have h1: "page_query_selector_all radon_page ''.major-pollutant'' =
     Inr [pollutant_element ''Radon'' ''3'' '''']"
    by (simp add: radon_page_def pollutants_page_def loaded_page_def all_of_def)
  have h2: "block_reads (pollutant_element ''Radon'' ''3'' '''') ''Radon'' ''3'' (Some '''')"
    by code_simp
  have h3: "normalize_pollutant_name ''Radon'' = ''radon''" by code_simp
  have h4: "''radon'' \<notin> set headers" by (simp add: headers_def)
  have h5: "crawl_city_data radon_page sample_city sample_time =
     Some [(''timestamp'', Some ''2025-02-01T00:05:09+07:00''),
           (''city'', Some ''Ha Noi''), (''aqi'', None),
           (''weather_condition'', None), (''wind_speed'', None),
           (''humidity'', None), (''temperature'', None), (''uv_index'', None),
           (''radon'', Some ''3''),
           (''pm25'', Some ''N/A''), (''pm10'', Some ''N/A''),
           (''co'', Some ''N/A''), (''so2'', Some ''N/A''), (''no2'', Some ''N/A''),
           (''o3'', Some ''N/A'')]"
    by code_simp
  have h6: "\<exists>x \<in> set ''3''. is_digit x" by (simp add: is_digit_def digit_chars_def)
  from unknown_pollutant_is_extra_field
    [of radon_page "[pollutant_element ''Radon'' ''3'' '''']" "pollutant_element ''Radon'' ''3'' ''''"
        "''Radon''" "''3''" "Some ''''" sample_city sample_time _ "[]"]
    h1 h2 h3 h4 h5 h6
  show ?thesis by simp
qed

text \<open>
  The claim as first stated takes every key outside the six canonical pollutant keys
  for an extra field. The label \<open>AQI\<close> gives the key \<open>aqi\<close>, which is outside the six
  but is a header name: the record has the 14 header keys only, its \<open>aqi\<close> field
  holding the value of the block.
\<close>

theorem header_named_pollutant_counterexample:
  "normalize_pollutant_name ''AQI'' = ''aqi'' \<and> ''aqi'' \<notin> set canonical_pollutants \<and>
   crawl_city_data aqi_label_page sample_city sample_time =
     Some [(''timestamp'', Some ''2025-02-01T00:05:09+07:00''),
           (''city'', Some ''Ha Noi''), (''aqi'', Some ''5''),
           (''weather_condition'', None), (''wind_speed'', None),
           (''humidity'', None), (''temperature'', None), (''uv_index'', None),
           (''pm25'', Some ''N/A''), (''pm10'', Some ''N/A''),
           (''co'', Some ''N/A''), (''so2'', Some ''N/A''), (''no2'', Some ''N/A''),
           (''o3'', Some ''N/A'')] \<and>
   set (keys
         [(''timestamp'', Some ''2025-02-01T00:05:09+07:00''),
           (''city'', Some ''Ha Noi''), (''aqi'', Some ''5''),
           (''weather_condition'', None), (''wind_speed'', None),
           (''humidity'', None), (''temperature'', None), (''uv_index'', None),
           (''pm25'', Some ''N/A''), (''pm10'', Some ''N/A''),
           (''co'', Some ''N/A''), (''so2'', Some ''N/A''), (''no2'', Some ''N/A''),
           (''o3'', Some ''N/A'')]) \<subseteq> set headers"
proof -
  have 1: "normalize_pollutant_name ''AQI'' = ''aqi''" by code_simp
  have 2: "''aqi'' \<notin> set canonical_pollutants" by (simp add: canonical_pollutants_def)
  have 3: "crawl_city_data aqi_label_page sample_city sample_time =
     Some [(''timestamp'', Some ''2025-02-01T00:05:09+07:00''),
           (''city'', Some ''Ha Noi''), (''aqi'', Some ''5''),
           (''weather_condition'', None), (''wind_speed'', None),
           (''humidity'', None), (''temperature'', None), (''uv_index'', None),
           (''pm25'', Some ''N/A''), (''pm10'', Some ''N/A''),
           (''co'', Some ''N/A''), (''so2'', Some ''N/A''), (''no2'', Some ''N/A''),
           (''o3'', Some ''N/A'')]"
    by code_simp
  have 4: "set (keys
         [(''timestamp'', Some ''2025-02-01T00:05:09+07:00''),
           (''city'', Some ''Ha Noi''), (''aqi'', Some ''5''),
           (''weather_condition'', None), (''wind_speed'', None),
           (''humidity'', None), (''temperature'', None), (''uv_index'', None),
           (''pm25'', Some ''N/A''), (''pm10'', Some ''N/A''),
           (''co'', Some ''N/A''), (''so2'', Some ''N/A''), (''no2'', Some ''N/A''),
           (''o3'', Some ''N/A'')]) \<subseteq> set headers"
    by (simp add: keys_def headers_def)
  from 1 2 3 4 show ?thesis by simp
qed
section \<open>The CSV sink: results\<close>

lemma lower_month: "lower_month_names = map lower month_abbr"
  by code_simp

lemma strftime_b_lower:
  assumes "1 \<le> month now" "month now \<le> 12"
  shows "lower (strftime_b now) = lower_month_names ! (month now - 1)"
proof -
  from assms have "month now - 1 < length month_abbr" by (simp add: month_abbr_def)
  then show ?thesis by (simp add: strftime_b_def lower_month)
qed

lemma save_to_csv_path:
  "wrong_fields data = [] \<Longrightarrow> fst (save_to_csv data city_name now fs) = Inr (filepath city_name now)"
  by (simp add: save_to_csv_def Let_def)

lemma save_to_csv_files:
  "files (snd (save_to_csv data city_name now fs)) =
     (files fs)(filepath city_name now \<mapsto>
        (case files fs (filepath city_name now) of
           Some rows \<Rightarrow> rows
         | None \<Rightarrow> [Header headers]) @
        (if wrong_fields data = [] then [Row (dict_to_list data)] else []))"
  by (auto simp: save_to_csv_def Let_def split: option.splits)

lemma header_once_append_row:
  "header_once rows \<Longrightarrow> header_once (rows @ [Row r])"
  by (auto simp: header_once_def split: list.splits csv_row.splits)

lemma filepath_same_month:
  "year t1 = year t2 \<Longrightarrow> month t1 = month t2 \<Longrightarrow> filepath c t1 = filepath c t2"
  by (simp add: filepath_def filename_def strftime_b_def)


lemma save_to_csv_new_file:
  assumes "files fs (filepath c t) = None" "wrong_fields d = []"
  shows "files (snd (save_to_csv d c t fs)) (filepath c t) =
           Some [Header headers, Row (dict_to_list d)]"
  using assms by (simp add: save_to_csv_files)

lemma save_to_csv_old_file:
  assumes "files fs (filepath c t) = Some rows" "wrong_fields d = []"
  shows "files (snd (save_to_csv d c t fs)) (filepath c t) =
           Some (rows @ [Row (dict_to_list d)])"
  using assms by (simp add: save_to_csv_files)


lemma save_keeps_header_once:
  assumes a: "\<forall>q rows. files fs q = Some rows \<longrightarrow> header_once rows"
  shows "\<forall>q rows. files (snd (save_to_csv data city_name now fs)) q = Some rows \<longrightarrow>
         header_once rows"
proof (intro allI impI)
  fix q rows
  assume b: "files (snd (save_to_csv data city_name now fs)) q = Some rows"
  show "header_once rows"
  proof (cases "q = filepath city_name now")
    case False
    with b have "files fs q = Some rows" by (simp add: save_to_csv_files)
    with a show ?thesis by simp
  next
    case True
    define old where "old = (case files fs q of Some rows \<Rightarrow> rows | None \<Rightarrow> [Header headers])"
    have "header_once old"
    proof (cases "files fs q")
      case None
      then show ?thesis by (simp add: old_def header_once_def)
    next
      case (Some rs)
      with a show ?thesis by (simp add: old_def)
    qed
    moreover from b True have "rows = old @ (if wrong_fields data = [] then [Row (dict_to_list data)] else [])"
      by (simp add: save_to_csv_files old_def)
    ultimately show ?thesis by (simp add: header_once_append_row)
  qed
qed

lemma two_saves_either_order:
  assumes "files fs (filepath c t1) = None" "year t1 = year t2" "month t1 = month t2"
    "wrong_fields d1 = []" "wrong_fields d2 = []"
  shows "files (snd (save_to_csv d2 c t2 (snd (save_to_csv d1 c t1 fs)))) (filepath c t1) =
           Some [Header headers, Row (dict_to_list d1), Row (dict_to_list d2)]"
    and "files (snd (save_to_csv d1 c t1 (snd (save_to_csv d2 c t2 fs)))) (filepath c t1) =
           Some [Header headers, Row (dict_to_list d2), Row (dict_to_list d1)]"
proof -
  have p: "filepath c t1 = filepath c t2"
    using assms(2,3) by (rule filepath_same_month)
  have a: "files (snd (save_to_csv d1 c t1 fs)) (filepath c t2) =
      Some [Header headers, Row (dict_to_list d1)]"
    using save_to_csv_new_file [OF assms(1) assms(4)] p by simp
  have "files (snd (save_to_csv d2 c t2 (snd (save_to_csv d1 c t1 fs)))) (filepath c t2) =
      Some ([Header headers, Row (dict_to_list d1)] @ [Row (dict_to_list d2)])"
    using a assms(5) by (rule save_to_csv_old_file)
  then show "files (snd (save_to_csv d2 c t2 (snd (save_to_csv d1 c t1 fs)))) (filepath c t1) =
           Some [Header headers, Row (dict_to_list d1), Row (dict_to_list d2)]"
    using p by simp
  have n: "files fs (filepath c t2) = None"
    using assms(1) p by simp
  have b: "files (snd (save_to_csv d2 c t2 fs)) (filepath c t1) =
      Some [Header headers, Row (dict_to_list d2)]"
    using save_to_csv_new_file [OF n assms(5)] p by simp
  have "files (snd (save_to_csv d1 c t1 (snd (save_to_csv d2 c t2 fs)))) (filepath c t1) =
      Some ([Header headers, Row (dict_to_list d2)] @ [Row (dict_to_list d1)])"
    using b assms(4) by (rule save_to_csv_old_file)
  then show "files (snd (save_to_csv d1 c t1 (snd (save_to_csv d2 c t2 fs)))) (filepath c t1) =
           Some [Header headers, Row (dict_to_list d2), Row (dict_to_list d1)]"
    by simp
qed

lemma save_to_csv_rejected:
  assumes "wrong_fields data \<noteq> []"
  shows "fst (save_to_csv data city_name now fs) = Inl ValueError"
    and "files (snd (save_to_csv data city_name now fs)) (filepath city_name now) =
      Some (case files fs (filepath city_name now) of
              Some rows \<Rightarrow> rows
            | None \<Rightarrow> [Header headers])"
proof -
  show "fst (save_to_csv data city_name now fs) = Inl ValueError"
    using assms by (simp add: save_to_csv_def Let_def)
  show "files (snd (save_to_csv data city_name now fs)) (filepath city_name now) =
      Some (case files fs (filepath city_name now) of
              Some rows \<Rightarrow> rows
            | None \<Rightarrow> [Header headers])"
    using assms by (simp add: save_to_csv_files)
qed

text \<open>
  C7. The sink writes the header row once, when it creates the file, and never
  again: a save keeps every file of the sink in the form header row, then data rows
  only. Two saves for the same city in the same month, into a file that did not
  exist, of records whose keys are all among the header names, leave the header row
  followed by the two data rows, in either order of the calls. A save of a record with
  a key that is no header name raises \<open>ValueError\<close> and adds no data row; the header
  row is there once all the same.
\<close>

theorem save_to_csv_header_once_two_rows:
  "((\<forall>q rows. files fs q = Some rows \<longrightarrow> header_once rows) \<longrightarrow>
      (\<forall>q rows. files (snd (save_to_csv data city_name now fs)) q = Some rows \<longrightarrow>
         header_once rows)) \<and>
   (files fs (filepath c t1) = None \<and> year t1 = year t2 \<and> month t1 = month t2 \<and>
    wrong_fields d1 = [] \<and> wrong_fields d2 = [] \<longrightarrow>
      files (snd (save_to_csv d2 c t2 (snd (save_to_csv d1 c t1 fs)))) (filepath c t1) =
        Some [Header headers, Row (dict_to_list d1), Row (dict_to_list d2)] \<and>
      files (snd (save_to_csv d1 c t1 (snd (save_to_csv d2 c t2 fs)))) (filepath c t1) =
        Some [Header headers, Row (dict_to_list d2), Row (dict_to_list d1)]) \<and>
   (wrong_fields data \<noteq> [] \<longrightarrow>
      fst (save_to_csv data city_name now fs) = Inl ValueError \<and>
      files (snd (save_to_csv data city_name now fs)) (filepath city_name now) =
        Some (case files fs (filepath city_name now) of
                Some rows \<Rightarrow> rows
              | None \<Rightarrow> [Header headers]))"
proof (intro conjI impI)
  assume "\<forall>q rows. files fs q = Some rows \<longrightarrow> header_once rows"
  then show "\<forall>q rows. files (snd (save_to_csv data city_name now fs)) q = Some rows \<longrightarrow>
         header_once rows"
    by (rule save_keeps_header_once)
next
  assume h: "files fs (filepath c t1) = None \<and> year t1 = year t2 \<and> month t1 = month t2 \<and>
    wrong_fields d1 = [] \<and> wrong_fields d2 = []"
  then show "files (snd (save_to_csv d2 c t2 (snd (save_to_csv d1 c t1 fs)))) (filepath c t1) =
        Some [Header headers, Row (dict_to_list d1), Row (dict_to_list d2)]"
    by (simp add: two_saves_either_order(1))
next
  assume h: "files fs (filepath c t1) = None \<and> year t1 = year t2 \<and> month t1 = month t2 \<and>
    wrong_fields d1 = [] \<and> wrong_fields d2 = []"
  then show "files (snd (save_to_csv d1 c t1 (snd (save_to_csv d2 c t2 fs)))) (filepath c t1) =
        Some [Header headers, Row (dict_to_list d2), Row (dict_to_list d1)]"
    by (simp add: two_saves_either_order(2))
next
  assume "wrong_fields data \<noteq> []"
  then show "fst (save_to_csv data city_name now fs) = Inl ValueError"
    by (rule save_to_csv_rejected(1))
next
  assume "wrong_fields data \<noteq> []"
  then show "files (snd (save_to_csv data city_name now fs)) (filepath city_name now) =
        Some (case files fs (filepath city_name now) of
                Some rows \<Rightarrow> rows
              | None \<Rightarrow> [Header headers])"
    by (rule save_to_csv_rejected(2))
qed

theorem save_to_csv_header_once_two_rows_witness:
  "files empty_filesystem (filepath ''hanoi'' sample_time) = None \<and>
   year sample_time = year second_time \<and> month sample_time = month second_time \<and>
   wrong_fields january_record = [] \<and>
   wrong_fields second_record = [] \<and>
   header_once [Header headers, Row (dict_to_list january_record)] \<and>
   files (snd (save_to_csv second_record ''hanoi'' second_time
                 (snd (save_to_csv january_record ''hanoi'' sample_time empty_filesystem))))
     (filepath ''hanoi'' sample_time) =
     Some [Header headers, Row (dict_to_list january_record), Row (dict_to_list second_record)] \<and>
   files (snd (save_to_csv january_record ''hanoi'' sample_time
                 (snd (save_to_csv second_record ''hanoi'' second_time empty_filesystem))))
     (filepath ''hanoi'' sample_time) =
     Some [Header headers, Row (dict_to_list second_record), Row (dict_to_list january_record)] \<and>
   wrong_fields radon_record \<noteq> [] \<and>
   fst (save_to_csv radon_record ''hanoi'' sample_time empty_filesystem) = Inl ValueError \<and>
   files (snd (save_to_csv radon_record ''hanoi'' sample_time empty_filesystem))
     (filepath ''hanoi'' sample_time) = Some [Header headers]"
proof -
  note t = save_to_csv_header_once_two_rows
    [of empty_filesystem january_record "''hanoi''" sample_time "''hanoi''" sample_time
        second_time january_record second_record]
  have h1: "files empty_filesystem (filepath ''hanoi'' sample_time) = None"
    by (simp add: empty_filesystem_def)
  have h2: "wrong_fields january_record = []" by code_simp
  have h3: "wrong_fields second_record = []" by code_simp
  have h4: "year sample_time = year second_time" by (simp add: sample_time_def second_time_def)
  have h5: "month sample_time = month second_time" by (simp add: sample_time_def second_time_def)
  have h0: "\<forall>q rows. files empty_filesystem q = Some rows \<longrightarrow> header_once rows"
    by (simp add: empty_filesystem_def)
  from t have "(\<forall>q rows. files empty_filesystem q = Some rows \<longrightarrow> header_once rows) \<longrightarrow>
      (\<forall>q rows. files (snd (save_to_csv january_record ''hanoi'' sample_time empty_filesystem)) q = Some rows \<longrightarrow>
         header_once rows)"
    by (rule conjunct1)
  then have i1: "\<forall>q rows. files (snd (save_to_csv january_record ''hanoi'' sample_time empty_filesystem)) q = Some rows \<longrightarrow>
         header_once rows"
    using h0 by (rule mp)
  have f: "files (snd (save_to_csv january_record ''hanoi'' sample_time empty_filesystem))
      (filepath ''hanoi'' sample_time) = Some [Header headers, Row (dict_to_list january_record)]"
    using h1 h2 by (rule save_to_csv_new_file)
  have g: "header_once [Header headers, Row (dict_to_list january_record)]"
    using i1 [rule_format, OF f] .
  have hyp: "files empty_filesystem (filepath ''hanoi'' sample_time) = None \<and>
      year sample_time = year second_time \<and> month sample_time = month second_time \<and>
      wrong_fields january_record = [] \<and> wrong_fields second_record = []"
    using h1 h2 h3 h4 h5 by (intro conjI)
  have two: "files (snd (save_to_csv second_record ''hanoi'' second_time
                 (snd (save_to_csv january_record ''hanoi'' sample_time empty_filesystem))))
     (filepath ''hanoi'' sample_time) =
     Some [Header headers, Row (dict_to_list january_record), Row (dict_to_list second_record)] \<and>
   files (snd (save_to_csv january_record ''hanoi'' sample_time
                 (snd (save_to_csv second_record ''hanoi'' second_time empty_filesystem))))
     (filepath ''hanoi'' sample_time) =
     Some [Header headers, Row (dict_to_list second_record), Row (dict_to_list january_record)]"
    using t [THEN conjunct2, THEN conjunct1] hyp by (rule mp)
  note two1 = two [THEN conjunct1] and two2 = two [THEN conjunct2]
  have w: "wrong_fields radon_record \<noteq> []" by code_simp
  note u = save_to_csv_header_once_two_rows
    [where data = radon_record and city_name = "''hanoi''" and now = sample_time
       and fs = empty_filesystem, THEN conjunct2, THEN conjunct2]
  from u w have rej: "fst (save_to_csv radon_record ''hanoi'' sample_time empty_filesystem) =
      Inl ValueError \<and>
      files (snd (save_to_csv radon_record ''hanoi'' sample_time empty_filesystem))
        (filepath ''hanoi'' sample_time) =
        Some (case files empty_filesystem (filepath ''hanoi'' sample_time) of
                Some rows \<Rightarrow> rows
              | None \<Rightarrow> [Header headers])"
    by (rule mp)
  note r1 = rej [THEN conjunct1]
  have r2: "files (snd (save_to_csv radon_record ''hanoi'' sample_time empty_filesystem))
     (filepath ''hanoi'' sample_time) = Some [Header headers]"
    using rej [THEN conjunct2] h1 by simp
  show ?thesis
    using h1 h4 h5 h2 h3 g two1 two2 w r1 r2 by (intro conjI)
qed

theorem save_to_csv_extra_field_no_row_counterexample:
  "crawl_city_data radon_page sample_city sample_time = Some radon_record \<and>
   files empty_filesystem (filepath ''hanoi'' sample_time) = None \<and>
   year sample_time = year second_time \<and> month sample_time = month second_time \<and>
   fst (save_to_csv radon_record ''hanoi'' sample_time empty_filesystem) = Inl ValueError \<and>
   files (snd (save_to_csv radon_record ''hanoi'' second_time
                 (snd (save_to_csv radon_record ''hanoi'' sample_time empty_filesystem))))
     (filepath ''hanoi'' sample_time) = Some [Header headers]"
proof -
  have c: "crawl_city_data radon_page sample_city sample_time = Some radon_record"
    by code_simp
  have n: "files empty_filesystem (filepath ''hanoi'' sample_time) = None"
    by (simp add: empty_filesystem_def)
  have y: "year sample_time = year second_time" "month sample_time = month second_time"
    by (simp_all add: sample_time_def second_time_def)
  have p: "filepath ''hanoi'' second_time = filepath ''hanoi'' sample_time"
    using filepath_same_month [OF y, of "''hanoi''"] by simp
  have w: "wrong_fields radon_record \<noteq> []" by code_simp
  have r: "fst (save_to_csv radon_record ''hanoi'' sample_time empty_filesystem) = Inl ValueError"
    using w by (rule save_to_csv_rejected(1))
  have a: "files (snd (save_to_csv radon_record ''hanoi'' sample_time empty_filesystem))
      (filepath ''hanoi'' sample_time) = Some [Header headers]"
    using save_to_csv_rejected(2) [OF w, of "''hanoi''" sample_time empty_filesystem] n by simp
  have b: "files (snd (save_to_csv radon_record ''hanoi'' second_time
                 (snd (save_to_csv radon_record ''hanoi'' sample_time empty_filesystem))))
     (filepath ''hanoi'' sample_time) = Some [Header headers]"
    using save_to_csv_rejected(2) [OF w, of "''hanoi''" second_time
        "snd (save_to_csv radon_record ''hanoi'' sample_time empty_filesystem)"] a p
    by simp
  from c n y r b show ?thesis by (intro conjI)
qed

lemma save_to_csv_creates:
  "filepath city_name now \<in> dom (files (snd (save_to_csv data city_name now fs)))"
  by (simp add: save_to_csv_files)

text \<open>
  C8. The sink computes the path \<open>result/<slug>/aqi_<slug>_<year>_<month>.csv\<close> with
  the three-letter lower-case month name, where the year and the month are those of
  the clock read at the call of the sink, whatever the record holds; the call returns
  this path and the file is there afterwards.
\<close>

theorem save_to_csv_path_from_clock:
  "1 \<le> month now \<and> month now \<le> 12 \<and> wrong_fields data = [] \<longrightarrow>
     fst (save_to_csv data city_name now fs) =
       Inr (''result/'' @ city_name @ ''/aqi_'' @ city_name @ ''_'' @ str_nat (year now) @
            ''_'' @ lower_month_names ! (month now - 1) @ ''.csv'') \<and>
     ''result/'' @ city_name @ ''/aqi_'' @ city_name @ ''_'' @ str_nat (year now) @
            ''_'' @ lower_month_names ! (month now - 1) @ ''.csv''
       \<in> dom (files (snd (save_to_csv data city_name now fs)))"
proof
  assume h: "1 \<le> month now \<and> month now \<le> 12 \<and> wrong_fields data = []"
  then have m: "lower (strftime_b now) = lower_month_names ! (month now - 1)"
    by (simp add: strftime_b_lower)
  have p: "filepath city_name now =
      ''result/'' @ city_name @ ''/aqi_'' @ city_name @ ''_'' @ str_nat (year now) @
            ''_'' @ lower_month_names ! (month now - 1) @ ''.csv''"
    by (simp add: filepath_def filename_def result_dir_def m)
  from h have "fst (save_to_csv data city_name now fs) = Inr (filepath city_name now)"
    by (simp add: save_to_csv_path)
  moreover have "filepath city_name now \<in> dom (files (snd (save_to_csv data city_name now fs)))"
    by (rule save_to_csv_creates)
  ultimately show "fst (save_to_csv data city_name now fs) =
       Inr (''result/'' @ city_name @ ''/aqi_'' @ city_name @ ''_'' @ str_nat (year now) @
            ''_'' @ lower_month_names ! (month now - 1) @ ''.csv'') \<and>
     ''result/'' @ city_name @ ''/aqi_'' @ city_name @ ''_'' @ str_nat (year now) @
            ''_'' @ lower_month_names ! (month now - 1) @ ''.csv''
       \<in> dom (files (snd (save_to_csv data city_name now fs)))"
    unfolding p by (rule conjI)
qed

theorem save_to_csv_path_from_clock_witness:
  "1 \<le> month sample_time \<and> month sample_time \<le> 12 \<and> wrong_fields january_record = [] \<and>
   fst (save_to_csv january_record ''hanoi'' sample_time empty_filesystem) =
     Inr ''result/hanoi/aqi_hanoi_2025_feb.csv''"
proof -
  have h1: "1 \<le> month sample_time \<and> month sample_time \<le> 12"
    by (simp add: sample_time_def)
  have h2: "wrong_fields january_record = []" by code_simp
  have v: "''result/'' @ ''hanoi'' @ ''/aqi_'' @ ''hanoi'' @ ''_'' @ str_nat (year sample_time) @
            ''_'' @ lower_month_names ! (month sample_time - 1) @ ''.csv'' =
           ''result/hanoi/aqi_hanoi_2025_feb.csv''"
    by code_simp
  from h1 h2 have "1 \<le> month sample_time \<and> month sample_time \<le> 12 \<and>
      wrong_fields january_record = []" by simp
  with save_to_csv_path_from_clock [of sample_time january_record "''hanoi''" empty_filesystem]
  have "fst (save_to_csv january_record ''hanoi'' sample_time empty_filesystem) =
       Inr (''result/'' @ ''hanoi'' @ ''/aqi_'' @ ''hanoi'' @ ''_'' @ str_nat (year sample_time) @
            ''_'' @ lower_month_names ! (month sample_time - 1) @ ''.csv'')"
    by (simp only:)
  then have "fst (save_to_csv january_record ''hanoi'' sample_time empty_filesystem) =
     Inr ''result/hanoi/aqi_hanoi_2025_feb.csv''"
    unfolding v .
  with h1 h2 show ?thesis by (intro conjI) simp_all
qed

theorem save_to_csv_path_ignores_timestamp_counterexample:
  "crawl_city_data (loaded_page []) sample_city january_time = Some january_record \<and>
   dict_get january_record ''timestamp'' = Some ''2025-01-31T23:59:59+07:00'' \<and>
   fst (save_to_csv january_record ''hanoi'' sample_time empty_filesystem) =
     Inr ''result/hanoi/aqi_hanoi_2025_feb.csv'' \<and>
   spec_filepath ''hanoi'' january_record = ''result/hanoi/aqi_hanoi_2025_jan.csv'' \<and>
   fst (save_to_csv january_record ''hanoi'' sample_time empty_filesystem) \<noteq>
     Inr (spec_filepath ''hanoi'' january_record)"
proof -
  have c: "crawl_city_data (loaded_page []) sample_city january_time = Some january_record"
    by code_simp
  have t: "dict_get january_record ''timestamp'' = Some ''2025-01-31T23:59:59+07:00''"
    by code_simp
  have w: "wrong_fields january_record = []" by code_simp
  have f: "filepath ''hanoi'' sample_time = ''result/hanoi/aqi_hanoi_2025_feb.csv''"
    by code_simp
  have s: "fst (save_to_csv january_record ''hanoi'' sample_time empty_filesystem) =
     Inr ''result/hanoi/aqi_hanoi_2025_feb.csv''"
    using w by (simp add: save_to_csv_path f)
  have j: "spec_filepath ''hanoi'' january_record = ''result/hanoi/aqi_hanoi_2025_jan.csv''"
    by code_simp
  have n: "fst (save_to_csv january_record ''hanoi'' sample_time empty_filesystem) \<noteq>
     Inr (spec_filepath ''hanoi'' january_record)"
    unfolding s j by simp
  from c t s j n show ?thesis by (intro conjI)
qed

section \<open>The temperature validator: results\<close>

lemma digit_chars_nth: "k < 10 \<Longrightarrow> is_digit (digit_chars ! k)"
proof -
  assume "k < 10"
  then have "k < length digit_chars" by (simp add: digit_chars_def)
  then have "digit_chars ! k \<in> set digit_chars" by (rule nth_mem)
  then show ?thesis by (simp add: is_digit_def)
qed

lemma str_nat_one: "n < 10 \<Longrightarrow> str_nat n = [digit_chars ! n]"
  by (simp add: str_nat.simps [of n])

lemma str_nat_digits: "str_nat n \<noteq> [] \<and> (\<forall>c \<in> set (str_nat n). is_digit c)"
proof (induction n rule: str_nat.induct)
  case (1 n)
  show ?case
  proof (cases "n < 10")
    case True
    then show ?thesis by (simp add: str_nat_one digit_chars_nth)
  next
    case False
    with 1 have ih: "\<forall>c \<in> set (str_nat (n div 10)). is_digit c" by simp
    have "is_digit (digit_chars ! (n mod 10))" by (simp add: digit_chars_nth)
    with False ih show ?thesis by (simp add: str_nat.simps [of n])
  qed
qed

lemma dot_no_digit: "\<not> is_digit (CHR ''.'')"
  by (simp add: is_digit_def digit_chars_def)

lemma minus_no_digit: "\<not> is_digit (CHR ''-'')"
  by (simp add: is_digit_def digit_chars_def)

lemma one_decimal_shape:
  assumes "ip \<noteq> []" "\<forall>c \<in> set ip. is_digit c" "is_digit d"
  shows "one_decimal ((if s then ''-'' else []) @ ip @ [CHR ''.'', d])"
proof -
  have tw: "takeWhile is_digit (ip @ [CHR ''.'', d]) = ip"
    using assms(2) by (simp add: takeWhile_append2 dot_no_digit)
  have dw: "dropWhile is_digit (ip @ [CHR ''.'', d]) = [CHR ''.'', d]"
    using assms(2) by (simp add: dropWhile_append2 dot_no_digit)
  from assms(1) obtain c cs where ip: "ip = c # cs" by (cases ip) auto
  with assms(2) have "is_digit c" by simp
  then have c: "c \<noteq> CHR ''-''" using minus_no_digit by auto
  show ?thesis
  proof (cases s)
    case True
    then show ?thesis using tw dw assms(1,3) by (simp add: one_decimal_def)
  next
    case False
    have "one_decimal (c # cs @ [CHR ''.'', d])"
      using tw dw assms(3) c unfolding ip by (simp add: one_decimal_def)
    with False show ?thesis by (simp add: ip)
  qed
qed

lemma one_decimal_format_1f: "one_decimal (format_1f (Finite s m))"
proof -
  define n where "n = nat (round_half_even (m * 10))"
  have d: "is_digit (digit_chars ! (n mod 10))" by (simp add: digit_chars_nth)
  have f: "format_1f (Finite s m) =
      (if s then ''-'' else []) @ str_nat (n div 10) @ [CHR ''.'', digit_chars ! (n mod 10)]"
    by (simp add: format_1f_def Let_def n_def str_nat_one)
  show ?thesis
    unfolding f using str_nat_digits [of "n div 10"] d by (intro one_decimal_shape) auto
qed

lemma in_range_finite:
  "float_ge v (- 50) \<Longrightarrow> float_le v 50 \<Longrightarrow> \<exists>s m. v = Finite s m"
  by (cases v) (auto simp: float_ge_def float_le_def)

lemma py_float_error: "py_float s = Inl e \<Longrightarrow> e = ValueError"
  by (auto simp: py_float_def Let_def split: list.splits if_splits)

lemma validate_temperature_parsed:
  assumes "py_float (sub_non_numeric (c # cs)) = Inr v0"
  shows "validate_temperature (Some (c # cs)) =
    Inr (if float_ge (celsius_of v0) (- 50) \<and> float_le (celsius_of v0) 50
         then Some (format_1f (celsius_of v0) @ degrees_celsius) else None)"
  using assms
  by (simp add: validate_temperature_def and_then_def except_value_type_def celsius_of_def Let_def)

lemma validate_temperature_unparsed:
  assumes "py_float (sub_non_numeric (c # cs)) = Inl e"
  shows "validate_temperature (Some (c # cs)) = Inr None"
proof -
  from assms have "e = ValueError" by (rule py_float_error)
  with assms show ?thesis
    by (simp add: validate_temperature_def and_then_def except_value_type_def)
qed

lemma validate_temperature_empty:
  "validate_temperature None = Inr None" "validate_temperature (Some []) = Inr None"
  by (simp_all add: validate_temperature_def except_value_type_def)

lemma validate_temperature_accepted:
  assumes "validate_temperature temp = Inr (Some out)"
  shows "\<exists>t v0. temp = Some t \<and> py_float (sub_non_numeric t) = Inr v0 \<and>
           float_ge (celsius_of v0) (- 50) \<and> float_le (celsius_of v0) 50 \<and>
           out = format_1f (celsius_of v0) @ degrees_celsius \<and>
           one_decimal (format_1f (celsius_of v0))"
proof (cases temp)
  case None
  with assms show ?thesis by (simp add: validate_temperature_empty)
next
  case (Some t)
  show ?thesis
  proof (cases t)
    case Nil
    with Some assms show ?thesis by (simp add: validate_temperature_empty)
  next
    case (Cons c cs)
    show ?thesis
    proof (cases "py_float (sub_non_numeric (c # cs))")
      case (Inl e)
      then have "validate_temperature (Some (c # cs)) = Inr None"
        by (rule validate_temperature_unparsed)
      with assms Some Cons show ?thesis by simp
    next
      case (Inr v0)
      note p = validate_temperature_parsed [OF Inr]
      from assms Some Cons p
      have r: "float_ge (celsius_of v0) (- 50) \<and> float_le (celsius_of v0) 50"
        and o: "out = format_1f (celsius_of v0) @ degrees_celsius"
        by (auto split: if_splits)
      from r obtain s m where "celsius_of v0 = Finite s m"
        using in_range_finite by blast
      then have "one_decimal (format_1f (celsius_of v0))"
        by (simp add: one_decimal_format_1f)
      with Some Cons Inr r o show ?thesis by simp
    qed
  qed
qed

lemma validate_temperature_returns:
  "validate_temperature temp = Inr None \<or> (\<exists>out. validate_temperature temp = Inr (Some out))"
proof (cases temp)
  case None
  then show ?thesis by (simp add: validate_temperature_empty)
next
  case (Some t)
  show ?thesis
  proof (cases t)
    case Nil
    with Some show ?thesis by (simp add: validate_temperature_empty)
  next
    case (Cons c cs)
    show ?thesis
    proof (cases "py_float (sub_non_numeric (c # cs))")
      case (Inl e)
      then have "validate_temperature (Some (c # cs)) = Inr None"
        by (rule validate_temperature_unparsed)
      with Some Cons show ?thesis by simp
    next
      case (Inr v0)
      from validate_temperature_parsed [OF Inr] Some Cons show ?thesis by simp
    qed
  qed
qed

lemma validate_temperature_examples:
  "validate_temperature (Some ''98.6'') = Inr (Some (''37.0'' @ degrees_celsius))"
  "validate_temperature (Some ''20'') = Inr (Some (''20.0'' @ degrees_celsius))"
  "validate_temperature (Some ''200'') = Inr None"
  by code_simp+

text \<open>
  C3. The temperature validator never raises. When the text, with everything but
  digits, dots and minus signs removed, parses as a number, that number is read as
  degrees Fahrenheit when it is above 50 and converted by \<open>(v - 32) * 5 / 9\<close>; the
  value is accepted exactly when it then lies in [-50, 50], and the result is the
  value printed with one decimal place followed by the degree sign and \<open>C\<close>. Every
  accepted input arises in this way. \<open>98.6\<close> gives \<open>37.0\<close> degrees, \<open>20\<close> gives
  \<open>20.0\<close> degrees, and \<open>200\<close> is not accepted.
\<close>

theorem validate_temperature_fahrenheit_heuristic:
  "(validate_temperature temp = Inr None \<or>
      (\<exists>r. validate_temperature temp = Inr (Some r))) \<and>
   (py_float (sub_non_numeric (c # cs)) = Inr v0 \<longrightarrow>
      validate_temperature (Some (c # cs)) =
        Inr (if float_ge (celsius_of v0) (- 50) \<and> float_le (celsius_of v0) 50
             then Some (format_1f (celsius_of v0) @ degrees_celsius) else None)) \<and>
   (validate_temperature temp = Inr (Some out) \<longrightarrow>
      (\<exists>t v. temp = Some t \<and> py_float (sub_non_numeric t) = Inr v \<and>
         float_ge (celsius_of v) (- 50) \<and> float_le (celsius_of v) 50 \<and>
         out = format_1f (celsius_of v) @ degrees_celsius \<and>
         one_decimal (format_1f (celsius_of v)))) \<and>
   validate_temperature (Some ''98.6'') = Inr (Some (''37.0'' @ degrees_celsius)) \<and>
   validate_temperature (Some ''20'') = Inr (Some (''20.0'' @ degrees_celsius)) \<and>
   validate_temperature (Some ''200'') = Inr None"
proof (intro conjI impI)
  show "validate_temperature temp = Inr None \<or>
      (\<exists>r. validate_temperature temp = Inr (Some r))"
    by (rule validate_temperature_returns)
next
  assume "py_float (sub_non_numeric (c # cs)) = Inr v0"
  then show "validate_temperature (Some (c # cs)) =
        Inr (if float_ge (celsius_of v0) (- 50) \<and> float_le (celsius_of v0) 50
             then Some (format_1f (celsius_of v0) @ degrees_celsius) else None)"
    by (rule validate_temperature_parsed)
next
  assume "validate_temperature temp = Inr (Some out)"
  then show "\<exists>t v. temp = Some t \<and> py_float (sub_non_numeric t) = Inr v \<and>
         float_ge (celsius_of v) (- 50) \<and> float_le (celsius_of v) 50 \<and>
         out = format_1f (celsius_of v) @ degrees_celsius \<and>
         one_decimal (format_1f (celsius_of v))"
    by (rule validate_temperature_accepted)
qed (rule validate_temperature_examples)+

theorem validate_temperature_fahrenheit_heuristic_witness:
  "py_float (sub_non_numeric ''98.6'') = Inr (round_double False (decimal_value ''98'' ''6'')) \<and>
   validate_temperature (Some ''98.6'') = Inr (Some (''37.0'' @ degrees_celsius)) \<and>
   float_ge (celsius_of (round_double False (decimal_value ''98'' ''6''))) (- 50) \<and>
   float_le (celsius_of (round_double False (decimal_value ''98'' ''6''))) 50 \<and>
   format_1f (celsius_of (round_double False (decimal_value ''98'' ''6''))) = ''37.0'' \<and>
   one_decimal ''37.0''"
proof -
  define v where "v = round_double False (decimal_value ''98'' ''6'')"
  have p: "py_float (sub_non_numeric ''98.6'') = Inr v"
    unfolding v_def by code_simp
  note t = validate_temperature_fahrenheit_heuristic
    [where temp = "Some ''98.6''" and c = "CHR ''9''" and cs = "''8.6''" and ?v0.0 = v
       and out = "''37.0'' @ degrees_celsius"]
  have x: "validate_temperature (Some ''98.6'') = Inr (Some (''37.0'' @ degrees_celsius))"
    using t by (elim conjE)
  have "validate_temperature (Some ''98.6'') =
        Inr (if float_ge (celsius_of v) (- 50) \<and> float_le (celsius_of v) 50
             then Some (format_1f (celsius_of v) @ degrees_celsius) else None)"
    using t [THEN conjunct2, THEN conjunct1] p by (rule mp)
  with x have r: "float_ge (celsius_of v) (- 50)" "float_le (celsius_of v) 50"
    and f: "format_1f (celsius_of v) = ''37.0''"
    by (auto split: if_splits)
  have "\<exists>t w. Some ''98.6'' = Some t \<and> py_float (sub_non_numeric t) = Inr w \<and>
         float_ge (celsius_of w) (- 50) \<and> float_le (celsius_of w) 50 \<and>
         ''37.0'' @ degrees_celsius = format_1f (celsius_of w) @ degrees_celsius \<and>
         one_decimal (format_1f (celsius_of w))"
    using t [THEN conjunct2, THEN conjunct2, THEN conjunct1] x by (rule mp)
  then obtain w where "py_float (sub_non_numeric ''98.6'') = Inr w"
    and "one_decimal (format_1f (celsius_of w))" by auto
  with p f have o: "one_decimal ''37.0''" by simp
  from p x r f o show ?thesis unfolding v_def by (intro conjI)
qed

section \<open>The wind-speed validator: results\<close>

lemma span_split:
  assumes "\<forall>c \<in> set xs. P c" "ys = [] \<or> \<not> P (hd ys)"
  shows "takeWhile P (xs @ ys) = xs" "dropWhile P (xs @ ys) = ys"
proof -
  from assms(2) have t: "takeWhile P ys = []" by (cases ys) auto
  from assms(2) have d: "dropWhile P ys = ys" by (cases ys) auto
  from assms(1) show "takeWhile P (xs @ ys) = xs" by (simp add: takeWhile_append2 t)
  from assms(1) show "dropWhile P (xs @ ys) = ys" by (simp add: dropWhile_append2 d)
qed

lemma unit_chars:
  "\<not> is_digit (CHR ''k'')" "\<not> is_digit (CHR ''m'')"
  "\<not> is_space (CHR ''k'')" "\<not> is_space (CHR ''m'')" "\<not> is_space (CHR ''.'')"
  by (simp_all add: is_digit_def digit_chars_def is_space_def whitespace_chars_def)

lemma space_no_digit: "is_space c \<Longrightarrow> \<not> is_digit c"
  using is_digit_not_space by blast

lemma unit_tail_head:
  assumes "list_all is_space ws" "u = ''km/h'' \<or> u = ''mph''"
  shows "\<not> is_digit (hd (ws @ u @ e))" "hd (ws @ u @ e) \<noteq> CHR ''.''" "ws @ u @ e \<noteq> []"
proof -
  show "ws @ u @ e \<noteq> []" using assms(2) by auto
  show "\<not> is_digit (hd (ws @ u @ e))"
  proof (cases ws)
    case Nil
    with assms(2) show ?thesis by (auto simp: unit_chars)
  next
    case (Cons c cs)
    with assms(1) have "is_space c" by simp
    with Cons show ?thesis by (simp add: space_no_digit)
  qed
  show "hd (ws @ u @ e) \<noteq> CHR ''.''"
  proof (cases ws)
    case Nil
    with assms(2) show ?thesis by auto
  next
    case (Cons c cs)
    with assms(1) have "is_space c" by simp
    with Cons show ?thesis using unit_chars(5) by auto
  qed
qed

lemma match_number_parts:
  assumes "ip \<noteq> []" "list_all is_digit ip" "list_all is_digit fp" "list_all is_space ws"
    "u = ''km/h'' \<or> u = ''mph''"
  shows "match_number (ip @ (if fp = [] then [] else CHR ''.'' # fp) @ ws @ u @ e) =
    Some (ip @ (if fp = [] then [] else CHR ''.'' # fp), ws @ u @ e)"
proof -
  define tl0 where "tl0 = ws @ u @ e"
  note h = unit_tail_head [OF assms(4,5), of e, folded tl0_def]
  from assms(2) have ipd: "\<forall>c \<in> set ip. is_digit c" by (simp add: list_all_iff)
  from assms(3) have fpd: "\<forall>c \<in> set fp. is_digit c" by (simp add: list_all_iff)
  show ?thesis
  proof (cases "fp = []")
    case True
    from h(1) have nd: "tl0 = [] \<or> \<not> is_digit (hd tl0)" by simp
    have "takeWhile is_digit (ip @ tl0) = ip" "dropWhile is_digit (ip @ tl0) = tl0"
      using ipd nd by (rule span_split)+
    moreover obtain c r where "tl0 = c # r" using h(3) by (cases tl0) auto
    moreover from this h(2) have "c \<noteq> CHR ''.''" by simp
    ultimately show ?thesis
      using True assms(1) unfolding tl0_def [symmetric] by (simp add: match_number_def Let_def)
  next
    case False
    have dd: "CHR ''.'' # fp @ tl0 = [] \<or> \<not> is_digit (hd (CHR ''.'' # fp @ tl0))"
      by (simp add: dot_no_digit)
    have a: "takeWhile is_digit (ip @ CHR ''.'' # fp @ tl0) = ip"
      "dropWhile is_digit (ip @ CHR ''.'' # fp @ tl0) = CHR ''.'' # fp @ tl0"
      using ipd dd by (rule span_split)+
    from h(1) have nd: "tl0 = [] \<or> \<not> is_digit (hd tl0)" by simp
    have b: "takeWhile is_digit (fp @ tl0) = fp" "dropWhile is_digit (fp @ tl0) = tl0"
      using fpd nd by (rule span_split)+
    show ?thesis
      using False assms(1) a b unfolding tl0_def [symmetric]
      by (simp add: match_number_def Let_def)
  qed
qed

lemma wind_speed_matches_parts:
  assumes "wind_speed_parts ip fp ws u" "at_end e"
  shows "wind_speed_matches (wind_speed_text ip fp ws u @ e)"
proof -
  from assms(1) have p: "ip \<noteq> []" "list_all is_digit ip" "list_all is_digit fp"
    "list_all is_space ws" "u = ''km/h'' \<or> u = ''mph''"
    by (simp_all add: wind_speed_parts_def)
  note m = match_number_parts [OF p, of e]
  from p(4) have wsd: "\<forall>c \<in> set ws. is_space c" by (simp add: list_all_iff)
  from p(5) have "u @ e = [] \<or> \<not> is_space (hd (u @ e))" by (auto simp: unit_chars)
  with wsd have d: "dropWhile is_space (ws @ u @ e) = u @ e"
    by (rule span_split(2))
  from p(5) assms(2) have
    "(startswith (u @ e) ''km/h'' \<and> at_end (drop 4 (u @ e))) \<or>
     (startswith (u @ e) ''mph'' \<and> at_end (drop 3 (u @ e)))"
    by auto
  with m d show ?thesis
    by (simp add: wind_speed_matches_def wind_speed_text_def Let_def)
qed

lemma takeWhile_digits: "list_all is_digit (takeWhile is_digit s)"
  by (induction s) auto

lemma takeWhile_spaces: "list_all is_space (takeWhile is_space s)"
  by (induction s) auto

lemma match_number_sound:
  assumes "match_number s = Some (num, r)"
  shows "\<exists>ip fp. ip \<noteq> [] \<and> list_all is_digit ip \<and> list_all is_digit fp \<and>
           num = ip @ (if fp = [] then [] else CHR ''.'' # fp) \<and> s = num @ r"
proof -
  define ip where "ip = takeWhile is_digit s"
  define r0 where "r0 = dropWhile is_digit s"
  have s: "s = ip @ r0" by (simp add: ip_def r0_def)
  have ipd: "list_all is_digit ip" by (simp add: ip_def takeWhile_digits)
  have m: "match_number s =
      (if ip = [] then None
       else case r0 of
              c # r' \<Rightarrow>
                if c = CHR ''.'' \<and> takeWhile is_digit r' \<noteq> []
                then Some (ip @ c # takeWhile is_digit r', dropWhile is_digit r')
                else Some (ip, r0)
            | [] \<Rightarrow> Some (ip, r0))"
    unfolding match_number_def Let_def ip_def r0_def ..
  from assms m have ne: "ip \<noteq> []" by (cases "ip = []") simp_all
  show ?thesis
  proof (cases r0)
    case Nil
    from assms m ne Nil have "num = ip" "r = []" by simp_all
    with s Nil ne ipd have "ip \<noteq> [] \<and> list_all is_digit ip \<and> list_all is_digit [] \<and>
           num = ip @ (if [] = [] then [] else CHR ''.'' # []) \<and> s = num @ r"
      by simp
    then show ?thesis by blast
  next
    case (Cons c r')
    define fp where "fp = takeWhile is_digit r'"
    have r': "r' = fp @ dropWhile is_digit r'" by (simp add: fp_def)
    have fpd: "list_all is_digit fp" by (simp add: fp_def takeWhile_digits)
    show ?thesis
    proof (cases "c = CHR ''.'' \<and> fp \<noteq> []")
      case True
      with assms m ne Cons have n: "num = ip @ CHR ''.'' # fp" and r: "r = dropWhile is_digit r'"
        by (simp_all add: fp_def)
      from s Cons True r' have "s = ip @ CHR ''.'' # fp @ dropWhile is_digit r'" by simp
      with n r have "s = num @ r" by simp
      with True n ne ipd fpd have "ip \<noteq> [] \<and> list_all is_digit ip \<and> list_all is_digit fp \<and>
           num = ip @ (if fp = [] then [] else CHR ''.'' # fp) \<and> s = num @ r"
        by simp
      then show ?thesis by blast
    next
      case False
      with assms m ne Cons have "num = ip" "r = r0" by (auto simp: fp_def)
      with s ne ipd have "ip \<noteq> [] \<and> list_all is_digit ip \<and> list_all is_digit [] \<and>
           num = ip @ (if [] = [] then [] else CHR ''.'' # []) \<and> s = num @ r"
        by simp
      then show ?thesis by blast
    qed
  qed
qed

lemma wind_speed_matches_sound:
  assumes "wind_speed_matches s"
  shows "\<exists>ip fp ws u e. wind_speed_parts ip fp ws u \<and> at_end e \<and>
           s = wind_speed_text ip fp ws u @ e"
proof -
  from assms obtain num r where m: "match_number s = Some (num, r)"
    by (auto simp: wind_speed_matches_def split: option.splits)
  define ws where "ws = takeWhile is_space r"
  define u0 where "u0 = dropWhile is_space r"
  have r: "r = ws @ u0" by (simp add: ws_def u0_def)
  have wsd: "list_all is_space ws" by (simp add: ws_def takeWhile_spaces)
  from match_number_sound [OF m] obtain ip fp where
    n: "ip \<noteq> []" "list_all is_digit ip" "list_all is_digit fp"
      "num = ip @ (if fp = [] then [] else CHR ''.'' # fp)" "s = num @ r"
    by blast
  from assms m have
    "(startswith u0 ''km/h'' \<and> at_end (drop 4 u0)) \<or> (startswith u0 ''mph'' \<and> at_end (drop 3 u0))"
    by (simp add: wind_speed_matches_def Let_def u0_def)
  then have "\<exists>u e. (u = ''km/h'' \<or> u = ''mph'') \<and> u0 = u @ e \<and> at_end e"
  proof
    assume k: "startswith u0 ''km/h'' \<and> at_end (drop 4 u0)"
    then obtain v where v: "u0 = ''km/h'' @ v" by (auto simp: startswith_iff)
    with k have "at_end v" by simp
    with v show ?thesis by blast
  next
    assume k: "startswith u0 ''mph'' \<and> at_end (drop 3 u0)"
    then obtain v where v: "u0 = ''mph'' @ v" by (auto simp: startswith_iff)
    with k have "at_end v" by simp
    with v show ?thesis by blast
  qed
  then obtain u e where ue: "u = ''km/h'' \<or> u = ''mph''" "u0 = u @ e" "at_end e"
    by blast
  from n wsd ue(1) have "wind_speed_parts ip fp ws u" by (simp add: wind_speed_parts_def)
  moreover from n(4,5) r ue(2) have "s = wind_speed_text ip fp ws u @ e"
    by (simp add: wind_speed_text_def)
  ultimately show ?thesis using ue(3) by blast
qed

lemma occurs_in_set: "occurs_in p s \<Longrightarrow> set p \<subseteq> set s"
  by (auto simp: occurs_in_def)

lemma p_char:
  "\<not> is_digit (CHR ''p'')" "\<not> is_space (CHR ''p'')"
  by (simp_all add: is_digit_def digit_chars_def is_space_def whitespace_chars_def)

lemma contains_mph:
  assumes "wind_speed_parts ip fp ws u" "at_end e"
  shows "contains ''mph'' (wind_speed_text ip fp ws u @ e) \<longleftrightarrow> u = ''mph''"
proof
  assume "u = ''mph''"
  then have "wind_speed_text ip fp ws u @ e =
      (ip @ (if fp = [] then [] else CHR ''.'' # fp) @ ws) @ ''mph'' @ e"
    by (simp add: wind_speed_text_def)
  then have "occurs_in ''mph'' (wind_speed_text ip fp ws u @ e)"
    unfolding occurs_in_def by blast
  then show "contains ''mph'' (wind_speed_text ip fp ws u @ e)" by (simp add: contains_iff)
next
  assume "contains ''mph'' (wind_speed_text ip fp ws u @ e)"
  then have "set ''mph'' \<subseteq> set (wind_speed_text ip fp ws u @ e)"
    by (simp only: contains_iff occurs_in_set)
  then have in_s: "CHR ''p'' \<in> set (wind_speed_text ip fp ws u @ e)" by simp
  from assms(1) have d: "\<forall>c \<in> set ip. is_digit c" "\<forall>c \<in> set fp. is_digit c"
    "\<forall>c \<in> set ws. is_space c" and u: "u = ''km/h'' \<or> u = ''mph''"
    by (simp_all add: wind_speed_parts_def list_all_iff)
  have e: "CHR ''p'' \<notin> set e" using assms(2) by (auto simp: at_end_def)
  from d p_char have "CHR ''p'' \<notin> set ip" "CHR ''p'' \<notin> set fp" "CHR ''p'' \<notin> set ws"
    by blast+
  with in_s e have "CHR ''p'' \<in> set u"
    by (auto simp: wind_speed_text_def split: if_splits)
  with u show "u = ''mph''" by auto
qed

lemma py_float_number:
  assumes "ip \<noteq> []" "list_all is_digit ip" "list_all is_digit fp"
  shows "py_float (ip @ (if fp = [] then [] else CHR ''.'' # fp)) =
    Inr (round_double False (decimal_value ip fp))"
proof -
  from assms(1) obtain c cs where ip: "ip = c # cs" by (cases ip) auto
  with assms(2) have "is_digit c" by simp
  then have c: "c \<noteq> CHR ''-''" using minus_no_digit by auto
  from assms(2) have ipd: "\<forall>c \<in> set ip. is_digit c" by (simp add: list_all_iff)
  define fr where "fr = (if fp = [] then [] else CHR ''.'' # fp)"
  have nd: "fr = [] \<or> \<not> is_digit (hd fr)" by (simp add: fr_def dot_no_digit)
  have tw: "takeWhile is_digit (ip @ fr) = ip" "dropWhile is_digit (ip @ fr) = fr"
    using ipd nd by (rule span_split)+
  have hd: "(case ip @ fr of c # x \<Rightarrow> c = CHR ''-'' | [] \<Rightarrow> False) = False"
    using c by (simp add: ip)
  have g: "py_float (ip @ fr) =
      (case fr of
         [] \<Rightarrow> if ip = [] then Inl ValueError else Inr (round_double False (decimal_value ip []))
       | c # fp \<Rightarrow>
           if c = CHR ''.'' \<and> list_all is_digit fp \<and> (ip \<noteq> [] \<or> fp \<noteq> [])
           then Inr (round_double False (decimal_value ip fp))
           else Inl ValueError)"
    unfolding py_float_def Let_def hd if_False tw ..
  have "py_float (ip @ fr) = Inr (round_double False (decimal_value ip fp))"
  proof (cases "fp = []")
    case True
    then have "fr = []" by (simp add: fr_def)
    with g assms(1) True show ?thesis by simp
  next
    case False
    then have "fr = CHR ''.'' # fp" by (simp add: fr_def)
    with g assms(3) False show ?thesis by simp
  qed
  then show ?thesis by (simp add: fr_def)
qed

lemma strip_last_no_space:
  assumes "strip s = a @ [c]"
  shows "\<not> is_space c"
proof -
  define x where "x = dropWhile is_space (rev (dropWhile is_space s))"
  from assms have "rev x = a @ [c]" by (simp add: strip_def x_def)
  then have "rev (rev x) = rev (a @ [c])" by simp
  then have x: "x = c # rev a" by simp
  then have "x \<noteq> []" by simp
  then have "\<not> is_space (hd x)" unfolding x_def by (rule hd_dropWhile)
  with x show ?thesis by simp
qed

lemma stripped_text_last:
  assumes "stripped_text x = Inr s" "s \<noteq> []"
  shows "\<not> is_space (last s)"
proof -
  from assms(1) obtain t where "s = strip t"
    by (auto simp: stripped_text_def strip_text_def and_then_def split: sum.splits option.splits)
  with assms(2) have "strip t = butlast s @ [last s]" by simp
  then show ?thesis by (rule strip_last_no_space)
qed

lemma newline_space: "is_space (CHR 0x0A)"
  by (simp add: is_space_def whitespace_chars_def)

lemma wind_speed_raw_last:
  assumes "wind_speed_raw el = Inr w" "w \<noteq> []"
  shows "last w \<noteq> CHR 0x0A"
proof -
  from assms(1) obtain spans where q: "query_selector_all el ''span'' = Inr spans"
    by (auto simp: wind_speed_raw_def and_then_def split: sum.splits)
  show ?thesis
  proof (cases spans)
    case Nil
    with assms(1) q have "stripped_text el = Inr w"
      by (simp add: wind_speed_raw_def and_then_def)
    then have "\<not> is_space (last w)" using assms(2) by (rule stripped_text_last)
    with newline_space show ?thesis by auto
  next
    case (Cons sp0 others)
    with assms(1) q obtain v un where v: "stripped_text sp0 = Inr v"
      and un: "(case others of sp1 # x \<Rightarrow> stripped_text sp1 | [] \<Rightarrow> Inr ''km/h'') = Inr un"
      and w: "w = v @ '' '' @ un"
      by (auto simp: wind_speed_raw_def and_then_def split: sum.splits)
    show ?thesis
    proof (cases "un = []")
      case True
      with w show ?thesis by simp
    next
      case False
      with w have l: "last w = last un" by simp
      show ?thesis
      proof (cases others)
        case Nil
        with un have "un = ''km/h''" by simp
        with l show ?thesis by simp
      next
        case (Cons sp1 rest)
        with un have "stripped_text sp1 = Inr un" by simp
        then have "\<not> is_space (last un)" using False by (rule stripped_text_last)
        with newline_space l show ?thesis by auto
      qed
    qed
  qed
qed

lemma wind_speed_raw_at_end:
  assumes "wind_speed_raw el = Inr (x @ e)" "at_end e"
  shows "e = []"
proof (rule ccontr)
  assume "e \<noteq> []"
  with assms(2) have e: "e = [CHR 0x0A]" by (simp add: at_end_def)
  then have "x @ e \<noteq> []" "last (x @ e) = CHR 0x0A" by simp_all
  with wind_speed_raw_last [OF assms(1)] show False by simp
qed

lemma validate_wind_speed_raw:
  "validate_wind_speed (Some el) =
     except_validation
       (and_then (wind_speed_raw el) (\<lambda>wind_speed.
          if wind_speed_matches wind_speed
          then if contains ''mph'' wind_speed
               then and_then
                      (py_float (case match_number wind_speed of
                                   Some (num, r) \<Rightarrow> num
                                 | None \<Rightarrow> [])) (\<lambda>v.
                    Inr (Some (format_1f (float_mul v kmh_per_mile) @ '' km/h'')))
               else Inr (Some wind_speed)
          else Inr None))"
  by (simp add: validate_wind_speed_def wind_speed_raw_def and_then_def
      split: sum.splits list.splits)

lemma validate_wind_speed_unreadable:
  assumes "wind_speed_raw el = Inl x"
  shows "validate_wind_speed (Some el) =
    (if x = ValueError \<or> x = TypeError \<or> x = AttributeError then Inr None else Inl x)"
  using assms by (simp add: validate_wind_speed_raw and_then_def except_validation_def)

lemma validate_wind_speed_rejects:
  assumes "wind_speed_raw el = Inr w" "\<not> wind_speed_matches w"
  shows "validate_wind_speed (Some el) = Inr None"
  using assms by (simp add: validate_wind_speed_raw and_then_def except_validation_def)

lemma validate_wind_speed_kmh:
  assumes "wind_speed_raw el = Inr w"
    "wind_speed_parts ip fp ws ''km/h''" "w = wind_speed_text ip fp ws ''km/h''"
  shows "validate_wind_speed (Some el) = Inr (Some w)"
proof -
  have e: "at_end []" by (simp add: at_end_def)
  from wind_speed_matches_parts [OF assms(2) e] assms(3)
  have m: "wind_speed_matches w" by simp
  from contains_mph [OF assms(2) e] assms(3)
  have c: "\<not> contains ''mph'' w" by simp
  from assms(1) m c show ?thesis
    by (simp add: validate_wind_speed_raw and_then_def except_validation_def)
qed

lemma validate_wind_speed_mph:
  assumes "wind_speed_raw el = Inr w"
    "wind_speed_parts ip fp ws ''mph''" "w = wind_speed_text ip fp ws ''mph''"
  shows "validate_wind_speed (Some el) =
    Inr (Some (format_1f (float_mul (round_double False (decimal_value ip fp)) kmh_per_mile) @
               '' km/h''))"
proof -
  have e: "at_end []" by (simp add: at_end_def)
  from assms(2) have p: "ip \<noteq> []" "list_all is_digit ip" "list_all is_digit fp"
    "list_all is_space ws" "''mph'' = ''km/h'' \<or> ''mph'' = ''mph''"
    by (simp_all add: wind_speed_parts_def)
  from wind_speed_matches_parts [OF assms(2) e] assms(3)
  have m: "wind_speed_matches w" by simp
  from contains_mph [OF assms(2) e] assms(3)
  have c: "contains ''mph'' w" by simp
  from match_number_parts [OF p, of "[]"] assms(3)
  have n: "match_number w = Some (ip @ (if fp = [] then [] else CHR ''.'' # fp), ws @ ''mph'')"
    by (simp add: wind_speed_text_def)
  note f = py_float_number [OF p(1,2,3)]
  from assms(1) m c n f show ?thesis
    by (simp add: validate_wind_speed_raw and_then_def except_validation_def)
qed

lemma wind_speed_raw_text: "wind_speed_raw (text_element t) = Inr (strip t)"
  by (simp add: wind_speed_raw_def text_element_def stripped_text_def strip_text_def and_then_def)

lemma validate_wind_speed_examples:
  "validate_wind_speed (Some (text_element ''25 mph'')) = Inr (Some ''40.2 km/h'')"
  "validate_wind_speed (Some (text_element ''10 km/h'')) = Inr (Some ''10 km/h'')"
  "validate_wind_speed (Some (text_element ''10 knots'')) = Inr None"
  by code_simp+

text \<open>
  C4. Let \<open>w\<close> be the raw text that the wind-speed validator reads from an element
  (the trimmed text of an element without child spans is one). The validator accepts
  exactly when \<open>w\<close> has the form \<open><number> (km/h|mph)\<close>: digits, optionally a dot
  and digits, any amount of white space (also none), then the unit; otherwise the
  result is \<open>None\<close>. A text in km/h is returned as it is; for a text in mph the
  number, as a float, is multiplied by 1.60934 and printed with the format \<open>.1f\<close>,
  followed by \<open>km/h\<close>. When the element cannot be read, the three exceptions of the
  handler give \<open>None\<close> and any other exception goes on to the caller. \<open>25 mph\<close>
  gives \<open>40.2 km/h\<close>, \<open>10 km/h\<close> gives \<open>10 km/h\<close>, and \<open>10 knots\<close> gives \<open>None\<close>.
\<close>

theorem validate_wind_speed_pattern:
  "(wind_speed_raw el = Inr w \<longrightarrow>
      ((\<exists>r. validate_wind_speed (Some el) = Inr (Some r)) \<longleftrightarrow>
         (\<exists>ip fp ws u. wind_speed_parts ip fp ws u \<and> w = wind_speed_text ip fp ws u)) \<and>
      ((\<exists>ip fp ws u. wind_speed_parts ip fp ws u \<and> w = wind_speed_text ip fp ws u) \<or>
         validate_wind_speed (Some el) = Inr None)) \<and>
   (wind_speed_raw el = Inr w \<and> wind_speed_parts ip fp ws ''km/h'' \<and>
    w = wind_speed_text ip fp ws ''km/h'' \<longrightarrow>
      validate_wind_speed (Some el) = Inr (Some w)) \<and>
   (wind_speed_raw el = Inr w \<and> wind_speed_parts ip fp ws ''mph'' \<and>
    w = wind_speed_text ip fp ws ''mph'' \<longrightarrow>
      validate_wind_speed (Some el) =
        Inr (Some (format_1f (float_mul (round_double False (decimal_value ip fp)) kmh_per_mile) @
                   '' km/h''))) \<and>
   (wind_speed_raw el = Inl x \<longrightarrow>
      validate_wind_speed (Some el) =
        (if x = ValueError \<or> x = TypeError \<or> x = AttributeError then Inr None else Inl x)) \<and>
   wind_speed_raw (text_element t) = Inr (strip t) \<and>
   validate_wind_speed (Some (text_element ''25 mph'')) = Inr (Some ''40.2 km/h'') \<and>
   validate_wind_speed (Some (text_element ''10 km/h'')) = Inr (Some ''10 km/h'') \<and>
   validate_wind_speed (Some (text_element ''10 knots'')) = Inr None"
proof -
  let ?pattern = "\<exists>ip fp ws u. wind_speed_parts ip fp ws u \<and> w = wind_speed_text ip fp ws u"
  have rejected: "validate_wind_speed (Some el) = Inr None"
    if raw: "wind_speed_raw el = Inr w" and no: "\<not> ?pattern"
  proof -
    have "\<not> wind_speed_matches w"
    proof
      assume "wind_speed_matches w"
      then obtain ip fp ws u e where p: "wind_speed_parts ip fp ws u" "at_end e"
        "w = wind_speed_text ip fp ws u @ e"
        using wind_speed_matches_sound by blast
      from raw p(3) have "wind_speed_raw el = Inr (wind_speed_text ip fp ws u @ e)" by simp
      then have "e = []" using p(2) by (rule wind_speed_raw_at_end)
      with p have "wind_speed_parts ip fp ws u \<and> w = wind_speed_text ip fp ws u" by simp
      then have ?pattern by blast
      with no show False by simp
    qed
    with raw show ?thesis by (rule validate_wind_speed_rejects)
  qed
  have accepted: "\<exists>r. validate_wind_speed (Some el) = Inr (Some r)"
    if raw: "wind_speed_raw el = Inr w" and yes: ?pattern
  proof -
    from yes obtain ip fp ws u where p: "wind_speed_parts ip fp ws u"
      "w = wind_speed_text ip fp ws u" by blast
    from p(1) have "u = ''km/h'' \<or> u = ''mph''" by (simp add: wind_speed_parts_def)
    then show ?thesis
    proof
      assume u: "u = ''km/h''"
      from raw p have "validate_wind_speed (Some el) = Inr (Some w)"
        unfolding u by (rule validate_wind_speed_kmh)
      then show ?thesis by blast
    next
      assume u: "u = ''mph''"
      from raw p have "validate_wind_speed (Some el) =
        Inr (Some (format_1f (float_mul (round_double False (decimal_value ip fp)) kmh_per_mile) @
                   '' km/h''))"
        unfolding u by (rule validate_wind_speed_mph)
      then show ?thesis by blast
    qed
  qed
  have first: "wind_speed_raw el = Inr w \<longrightarrow>
      ((\<exists>r. validate_wind_speed (Some el) = Inr (Some r)) \<longleftrightarrow> ?pattern) \<and>
      (?pattern \<or> validate_wind_speed (Some el) = Inr None)"
  proof (intro impI conjI)
    assume raw: "wind_speed_raw el = Inr w"
    show "(\<exists>r. validate_wind_speed (Some el) = Inr (Some r)) \<longleftrightarrow> ?pattern"
    proof
      assume a: "\<exists>r. validate_wind_speed (Some el) = Inr (Some r)"
      show ?pattern
      proof (rule ccontr)
        assume "\<not> ?pattern"
        with raw have "validate_wind_speed (Some el) = Inr None" by (rule rejected)
        with a show False by simp
      qed
    next
      assume ?pattern
      with raw show "\<exists>r. validate_wind_speed (Some el) = Inr (Some r)" by (rule accepted)
    qed
    show "?pattern \<or> validate_wind_speed (Some el) = Inr None"
    proof (cases ?pattern)
      case True
      then show ?thesis by (rule disjI1)
    next
      case False
      with raw have "validate_wind_speed (Some el) = Inr None" by (rule rejected)
      then show ?thesis by (rule disjI2)
    qed
  qed
  have kmh: "wind_speed_raw el = Inr w \<and> wind_speed_parts ip fp ws ''km/h'' \<and>
      w = wind_speed_text ip fp ws ''km/h'' \<longrightarrow> validate_wind_speed (Some el) = Inr (Some w)"
    using validate_wind_speed_kmh by blast
  have mph: "wind_speed_raw el = Inr w \<and> wind_speed_parts ip fp ws ''mph'' \<and>
      w = wind_speed_text ip fp ws ''mph'' \<longrightarrow>
      validate_wind_speed (Some el) =
        Inr (Some (format_1f (float_mul (round_double False (decimal_value ip fp)) kmh_per_mile) @
                   '' km/h''))"
    using validate_wind_speed_mph by blast
  have unreadable: "wind_speed_raw el = Inl x \<longrightarrow>
      validate_wind_speed (Some el) =
        (if x = ValueError \<or> x = TypeError \<or> x = AttributeError then Inr None else Inl x)"
    using validate_wind_speed_unreadable by blast
  from first kmh mph unreadable wind_speed_raw_text validate_wind_speed_examples
  show ?thesis by (intro conjI)
qed

theorem validate_wind_speed_pattern_witness:
  "wind_speed_raw (text_element '' 25 mph '') = Inr ''25 mph'' \<and>
   wind_speed_parts ''25'' [] '' '' ''mph'' \<and>
   ''25 mph'' = wind_speed_text ''25'' [] '' '' ''mph'' \<and>
   validate_wind_speed (Some (text_element '' 25 mph '')) = Inr (Some ''40.2 km/h'') \<and>
   format_1f (float_mul (round_double False (decimal_value ''25'' [])) kmh_per_mile) = ''40.2'' \<and>
   wind_speed_raw (two_span_element ''10.5'' '' km/h'') = Inr ''10.5 km/h'' \<and>
   wind_speed_parts ''10'' ''5'' '' '' ''km/h'' \<and>
   ''10.5 km/h'' = wind_speed_text ''10'' ''5'' '' '' ''km/h'' \<and>
   validate_wind_speed (Some (two_span_element ''10.5'' '' km/h'')) = Inr (Some ''10.5 km/h'') \<and>
   wind_speed_raw (text_element ''10 knots'') = Inr ''10 knots'' \<and>
   \<not> wind_speed_matches ''10 knots'' \<and>
   validate_wind_speed (Some (text_element ''10 knots'')) = Inr None \<and>
   wind_speed_raw faulty_element = Inl PlaywrightError \<and>
   validate_wind_speed (Some faulty_element) = Inl PlaywrightError"
proof -
  have m0: "wind_speed_raw (text_element '' 25 mph '') = Inr ''25 mph''" by code_simp
  have m1: "wind_speed_parts ''25'' [] '' '' ''mph''" by code_simp
  have m2: "''25 mph'' = wind_speed_text ''25'' [] '' '' ''mph''" by code_simp
  have m3: "format_1f (float_mul (round_double False (decimal_value ''25'' [])) kmh_per_mile) =
      ''40.2''" by code_simp
  note tm = validate_wind_speed_pattern
    [where el = "text_element '' 25 mph ''" and w = "''25 mph''" and ip = "''25''" and fp = "[]"
       and ws = "'' ''"]
  from m0 m1 m2 have "wind_speed_raw (text_element '' 25 mph '') = Inr ''25 mph'' \<and>
      wind_speed_parts ''25'' [] '' '' ''mph'' \<and>
      ''25 mph'' = wind_speed_text ''25'' [] '' '' ''mph''" by (intro conjI)
  with tm [THEN conjunct2, THEN conjunct2, THEN conjunct1]
  have "validate_wind_speed (Some (text_element '' 25 mph '')) =
        Inr (Some (format_1f (float_mul (round_double False (decimal_value ''25'' [])) kmh_per_mile) @
                   '' km/h''))"
    by (rule mp)
  then have r1: "validate_wind_speed (Some (text_element '' 25 mph '')) = Inr (Some ''40.2 km/h'')"
    unfolding m3 by simp
  have k0: "wind_speed_raw (two_span_element ''10.5'' '' km/h'') = Inr ''10.5 km/h''" by code_simp
  have k1: "wind_speed_parts ''10'' ''5'' '' '' ''km/h''" by code_simp
  have k2: "''10.5 km/h'' = wind_speed_text ''10'' ''5'' '' '' ''km/h''" by code_simp
  note tk = validate_wind_speed_pattern
    [where el = "two_span_element ''10.5'' '' km/h''" and w = "''10.5 km/h''" and ip = "''10''"
       and fp = "''5''" and ws = "'' ''"]
  from k0 k1 k2 have "wind_speed_raw (two_span_element ''10.5'' '' km/h'') = Inr ''10.5 km/h'' \<and>
      wind_speed_parts ''10'' ''5'' '' '' ''km/h'' \<and>
      ''10.5 km/h'' = wind_speed_text ''10'' ''5'' '' '' ''km/h''" by (intro conjI)
  with tk [THEN conjunct2, THEN conjunct1]
  have r2: "validate_wind_speed (Some (two_span_element ''10.5'' '' km/h'')) =
      Inr (Some ''10.5 km/h'')"
    by (rule mp)
  have n0: "wind_speed_raw (text_element ''10 knots'') = Inr ''10 knots''" by code_simp
  have n1: "\<not> wind_speed_matches ''10 knots''" by code_simp
  have n2: "\<not> (\<exists>ip fp ws u. wind_speed_parts ip fp ws u \<and>
      ''10 knots'' = wind_speed_text ip fp ws u)"
  proof
    assume "\<exists>ip fp ws u. wind_speed_parts ip fp ws u \<and>
      ''10 knots'' = wind_speed_text ip fp ws u"
    then obtain ip fp ws u where p: "wind_speed_parts ip fp ws u"
      "''10 knots'' = wind_speed_text ip fp ws u" by blast
    have "at_end []" by (simp add: at_end_def)
    with p(1) have "wind_speed_matches (wind_speed_text ip fp ws u @ [])"
      by (rule wind_speed_matches_parts)
    with p(2) n1 show False by simp
  qed
  note tn = validate_wind_speed_pattern
    [where el = "text_element ''10 knots''" and w = "''10 knots''"]
  from tn [THEN conjunct1] n0
  have "(\<exists>ip fp ws u. wind_speed_parts ip fp ws u \<and> ''10 knots'' = wind_speed_text ip fp ws u) \<or>
         validate_wind_speed (Some (text_element ''10 knots'')) = Inr None"
    by simp
  with n2 have r3: "validate_wind_speed (Some (text_element ''10 knots'')) = Inr None"
    by blast
  have f0: "wind_speed_raw faulty_element = Inl PlaywrightError" by code_simp
  note tf = validate_wind_speed_pattern [where el = faulty_element and x = PlaywrightError]
  from tf [THEN conjunct2, THEN conjunct2, THEN conjunct2, THEN conjunct1] f0
  have "validate_wind_speed (Some faulty_element) =
        (if PlaywrightError = ValueError \<or> PlaywrightError = TypeError \<or>
            PlaywrightError = AttributeError then Inr None else Inl PlaywrightError)"
    by (rule mp)
  then have r4: "validate_wind_speed (Some faulty_element) = Inl PlaywrightError" by simp
  from m0 m1 m2 r1 m3 k0 k1 k2 r2 n0 n1 r3 f0 r4 show ?thesis by (intro conjI)
qed

section \<open>The record fields and the validators\<close>

lemma validate_humidity_output:
  assumes "validate_humidity el = Inr (Some h)"
  shows "humidity_matches h"
proof (cases el)
  case None
  with assms show ?thesis by (simp add: validate_humidity_def except_validation_def)
next
  case (Some e)
  define body where "body =
    and_then (query_selector_all e ''span'') (\<lambda>child_spans.
      and_then
        (case child_spans of
           [] \<Rightarrow> stripped_text e
         | sp0 # x \<Rightarrow> and_then (stripped_text sp0) (\<lambda>t. Inr (t @ ''%''))) (\<lambda>humidity_text.
      if humidity_matches humidity_text then Inr (Some humidity_text) else Inr None))"
  from assms Some have "except_validation body = Inr (Some h)"
    by (simp add: validate_humidity_def body_def)
  then have b: "body = Inr (Some h)"
    by (auto simp: except_validation_def split: sum.splits if_splits)
  then obtain spans where "query_selector_all e ''span'' = Inr spans"
    by (auto simp: body_def and_then_def split: sum.splits)
  with b obtain ht where "(if humidity_matches ht then Inr (Some ht) else Inr None) =
      (Inr (Some h) :: string option result)"
    by (auto simp: body_def and_then_def split: sum.splits)
  then show ?thesis by (auto split: if_splits)
qed

lemma validate_uv_index_output:
  assumes "validate_uv_index el = Inr (Some u)"
  shows "\<exists>n. 0 \<le> n \<and> n \<le> 11 \<and> u = py_str n"
proof (cases el)
  case None
  with assms show ?thesis by (simp add: validate_uv_index_def except_validation_def)
next
  case (Some e)
  define body where "body =
    and_then (query_selector_all e ''span'') (\<lambda>child_spans.
      and_then
        (case child_spans of
           [] \<Rightarrow> stripped_text e
         | sp0 # x \<Rightarrow> stripped_text sp0) (\<lambda>uv_text.
      if uv_matches uv_text
      then and_then (py_int uv_text) (\<lambda>uv_value.
             if 0 \<le> uv_value \<and> uv_value \<le> 11 then Inr (Some (py_str uv_value))
             else Inr None)
      else Inr None))"
  from assms Some have "except_validation body = Inr (Some u)"
    by (simp add: validate_uv_index_def body_def)
  then have b: "body = Inr (Some u)"
    by (auto simp: except_validation_def split: sum.splits if_splits)
  then obtain spans where "query_selector_all e ''span'' = Inr spans"
    by (auto simp: body_def and_then_def split: sum.splits)
  with b obtain ut where "(if uv_matches ut
      then and_then (py_int ut) (\<lambda>uv_value.
             if 0 \<le> uv_value \<and> uv_value \<le> 11 then Inr (Some (py_str uv_value))
             else Inr None)
      else Inr None) = (Inr (Some u) :: string option result)"
    by (auto simp: body_def and_then_def split: sum.splits)
  then obtain n where "(if 0 \<le> n \<and> n \<le> 11 then Inr (Some (py_str n)) else Inr None) =
      (Inr (Some u) :: string option result)"
    by (auto simp: and_then_def split: if_splits sum.splits)
  then have "0 \<le> n \<and> n \<le> 11 \<and> u = py_str n" by (auto split: if_splits)
  then show ?thesis by blast
qed

lemma validate_wind_speed_output:
  assumes "validate_wind_speed el = Inr (Some s)"
  shows "\<not> contains ''mph'' s \<or> (\<exists>x. s = x @ '' km/h'')"
proof (cases el)
  case None
  with assms show ?thesis by (simp add: validate_wind_speed_def except_validation_def)
next
  case (Some e)
  show ?thesis
  proof (cases "wind_speed_raw e")
    case (Inl x)
    with assms Some show ?thesis
      by (simp add: validate_wind_speed_unreadable split: if_splits)
  next
    case (Inr w)
    with assms Some have r: "(if wind_speed_matches w
          then if contains ''mph'' w
               then and_then
                      (py_float (case match_number w of
                                   Some (num, r) \<Rightarrow> num
                                 | None \<Rightarrow> [])) (\<lambda>v.
                    Inr (Some (format_1f (float_mul v kmh_per_mile) @ '' km/h'')))
               else Inr (Some w)
          else Inr None) = (Inr (Some s) :: string option result)"
      by (auto simp: validate_wind_speed_raw and_then_def except_validation_def
          split: sum.splits if_splits)
    show ?thesis
    proof (cases "contains ''mph'' w")
      case False
      with r have "s = w" by (auto split: if_splits)
      with False show ?thesis by simp
    next
      case True
      with r obtain v where "s = format_1f (float_mul v kmh_per_mile) @ '' km/h''"
        by (auto simp: and_then_def split: if_splits sum.splits)
      then show ?thesis by blast
    qed
  qed
qed

lemma validate_temperature_output:
  assumes "validate_temperature temp = Inr (Some out)"
  shows "\<exists>x. out = x @ degrees_celsius"
  using validate_temperature_accepted [OF assms] by blast

lemma suffix_drop: "s = x @ y \<Longrightarrow> drop (length s - length y) s = y"
  by simp

lemma not_mph_output: "validate_wind_speed el \<noteq> Inr (Some ''12 mph'')"
proof
  assume "validate_wind_speed el = Inr (Some ''12 mph'')"
  then have "\<not> contains ''mph'' ''12 mph'' \<or> (\<exists>x. ''12 mph'' = x @ '' km/h'')"
    by (rule validate_wind_speed_output)
  moreover have "contains ''mph'' ''12 mph''" by code_simp
  ultimately obtain x where "''12 mph'' = x @ '' km/h''" by blast
  then have "drop (length ''12 mph'' - length '' km/h'') ''12 mph'' = '' km/h''"
    by (rule suffix_drop)
  then show False by simp
qed

lemma not_humidity_output: "validate_humidity el \<noteq> Inr (Some ''75'')"
proof
  assume "validate_humidity el = Inr (Some ''75'')"
  then have "humidity_matches ''75''" by (rule validate_humidity_output)
  moreover have "\<not> humidity_matches ''75''" by code_simp
  ultimately show False by simp
qed

lemma not_uv_index_output: "validate_uv_index el \<noteq> Inr (Some ''12'')"
proof
  assume "validate_uv_index el = Inr (Some ''12'')"
  then obtain n where n: "0 \<le> n" "n \<le> 11" "''12'' = py_str n"
    using validate_uv_index_output by blast
  from n(1,2) have "n \<in> set [0 .. 11]" by simp
  then have "py_str n \<in> set (map py_str [0 .. 11])" by simp
  moreover have "''12'' \<notin> set (map py_str [0 .. 11])" by code_simp
  ultimately show False using n(3) by simp
qed

lemma not_temperature_output:
  "validate_temperature temp \<noteq> Inr (Some [CHR ''9'', CHR ''8'', CHR 0xB0, CHR ''F''])"
proof
  assume "validate_temperature temp = Inr (Some [CHR ''9'', CHR ''8'', CHR 0xB0, CHR ''F''])"
  then obtain x where "[CHR ''9'', CHR ''8'', CHR 0xB0, CHR ''F''] = x @ degrees_celsius"
    using validate_temperature_output by blast
  then have "last [CHR ''9'', CHR ''8'', CHR 0xB0, CHR ''F''] = last (x @ degrees_celsius)"
    by simp
  then show False by (simp add: degrees_celsius_def)
qed

text \<open>
  C1. The driver stores the wind speed, the humidity and the UV index as the
  weather-component extractor read them, and the temperature of the primary spans as
  the temperature extractor joined it: no validator is applied. For the page
  \<open>unvalidated_page\<close> the record holds \<open>12 mph\<close>, \<open>75\<close>, \<open>12\<close> and 98 degrees
  Fahrenheit, none of which is an output of the matching validator on any input.
\<close>

theorem crawl_city_data_stores_unvalidated:
  "crawl_city_data unvalidated_page sample_city sample_time = Some unvalidated_record \<and>
   dict_get unvalidated_record ''wind_speed'' = Some ''12 mph'' \<and>
   (\<forall>el. validate_wind_speed el \<noteq> Inr (Some ''12 mph'')) \<and>
   dict_get unvalidated_record ''humidity'' = Some ''75'' \<and>
   (\<forall>el. validate_humidity el \<noteq> Inr (Some ''75'')) \<and>
   dict_get unvalidated_record ''uv_index'' = Some ''12'' \<and>
   (\<forall>el. validate_uv_index el \<noteq> Inr (Some ''12'')) \<and>
   dict_get unvalidated_record ''temperature'' = Some [CHR ''9'', CHR ''8'', CHR 0xB0, CHR ''F''] \<and>
   (\<forall>temp. validate_temperature temp \<noteq>
      Inr (Some [CHR ''9'', CHR ''8'', CHR 0xB0, CHR ''F'']))"
proof -
  have c: "crawl_city_data unvalidated_page sample_city sample_time = Some unvalidated_record"
    by code_simp
  have w: "dict_get unvalidated_record ''wind_speed'' = Some ''12 mph''" by code_simp
  have h: "dict_get unvalidated_record ''humidity'' = Some ''75''" by code_simp
  have u: "dict_get unvalidated_record ''uv_index'' = Some ''12''" by code_simp
  have t: "dict_get unvalidated_record ''temperature'' =
      Some [CHR ''9'', CHR ''8'', CHR 0xB0, CHR ''F'']" by code_simp
  from c w h u t not_mph_output not_humidity_output not_uv_index_output not_temperature_output
  show ?thesis by (intro conjI allI)
qed

end
